theory Spec2Isabelle
  imports Complex_Main "HOL-Library.AList"
begin

section \<open>The data-entry app of \<^verbatim>\<open>data_apk.py\<close>\<close>

text \<open>
  The script keeps a schema (a list of fields, each a name and a type), the rows entered
  so far and the draft of the schema being edited in the session state. This theory
  embeds \<^verbatim>\<open>validate_and_cast\<close> and the handlers of the script that read or
  write the schema and the rows, and proves the properties of the specification.
\<close>

subsection \<open>Values\<close>

text \<open>
  The four entries of the type select box, \<^verbatim>\<open>'short text'\<close>,
  \<^verbatim>\<open>'long text'\<close>, \<^verbatim>\<open>'number'\<close> and \<^verbatim>\<open>'date'\<close>.
\<close>

datatype field_type = Short_text | Long_text | Number | Date

fun type_str :: "field_type \<Rightarrow> string" where
  "type_str Short_text = ''short text''"
| "type_str Long_text = ''long text''"
| "type_str Number = ''number''"
| "type_str Date = ''date''"

text \<open>A schema entry \<^verbatim>\<open>{'name': ..., 'type': ...}\<close>.\<close>

record field =
  name :: string
  ftype :: field_type

text \<open>
  A Python float: the not-a-number value, the two infinities, or a finite number. Only
  the distinction between not-a-number and the rest matters below.
\<close>

datatype pyfloat = NaN | PosInf | NegInf | Finite rat

text \<open>A \<^verbatim>\<open>datetime.date\<close>.\<close>

datatype date = Ymd (year: nat) (month: nat) (day: nat)

text \<open>
  The values that reach \<^verbatim>\<open>validate_and_cast\<close>: \<^verbatim>\<open>None\<close>, a string
  (from a text input or a text column of the uploaded file), a float, an integer or a
  boolean (from a column pandas has inferred as such; an empty cell arrives as the float
  not-a-number), or a date (from the date input).
\<close>

datatype raw = RNone | RStr string | RFloat pyfloat | RInt int | RBool bool | RDate date

text \<open>The values \<^verbatim>\<open>validate_and_cast\<close> stores in a row.\<close>

datatype tval = VNone | VStr string | VFloat pyfloat | VDate date

text \<open>
  A stored row is the dict \<^verbatim>\<open>out\<close>, kept in insertion order; \<^verbatim>\<open>out[name] = v\<close>
  is \<^term>\<open>AList.update name v out\<close>.
\<close>

type_synonym row = "(string \<times> tval) list"

subsection \<open>Exceptions\<close>

text \<open>
  An exception carries the text \<^verbatim>\<open>str(e)\<close>. \<^verbatim>\<open>except Exception\<close> catches
  the instances of \<^verbatim>\<open>Exception\<close> and lets every other \<^verbatim>\<open>BaseException\<close>
  (such as \<^verbatim>\<open>KeyboardInterrupt\<close>) through.
\<close>

datatype exn = Exception string | BaseException string

fun is_Exception :: "exn \<Rightarrow> bool" where
  "is_Exception (Exception m) = True"
| "is_Exception (BaseException m) = False"

fun exn_str :: "exn \<Rightarrow> string" where
  "exn_str (Exception m) = m"
| "exn_str (BaseException m) = m"

text \<open>A computation either returns a value or raises an exception that leaves it.\<close>

datatype 'a result = Returns 'a | Raises exn

subsection \<open>Library functions\<close>

text \<open>
  The script calls \<^verbatim>\<open>float\<close>, \<^verbatim>\<open>str\<close> and
  \<^verbatim>\<open>pd.to_datetime(...).date()\<close>. What they compute on text is not part of the
  script, so they are parameters: \<open>float_of\<close> is \<^verbatim>\<open>float(v)\<close> for a value that is not
  a float already, \<open>str_of\<close> is \<^verbatim>\<open>str(v)\<close> for a value that is neither a string nor
  the not-a-number float, and \<open>to_datetime_date\<close> is \<^verbatim>\<open>pd.to_datetime(v).date()\<close>.
  So are \<^verbatim>\<open>df.to_csv(index=False)\<close> and \<^verbatim>\<open>pd.read_csv\<close>, which write and
  read a data frame: its column labels and its rows of cells, a row of the frame read
  being what \<^verbatim>\<open>iterrows\<close> yields for it.
\<close>

record 'a frame =
  columns :: "string list"
  data :: "'a list list"

record pylib =
  float_of :: "raw \<Rightarrow> exn + pyfloat"
  str_of :: "raw \<Rightarrow> string"
  to_datetime_date :: "raw \<Rightarrow> exn + date"
  to_csv :: "tval frame \<Rightarrow> string"
  read_csv :: "string \<Rightarrow> exn + raw frame"

text \<open>\<^verbatim>\<open>float(x)\<close> of a float is that float.\<close>

definition py_float :: "pylib \<Rightarrow> raw \<Rightarrow> exn + pyfloat" where
  "py_float lib v = (case v of RFloat x \<Rightarrow> Inr x | _ \<Rightarrow> float_of lib v)"

text \<open>\<^verbatim>\<open>str(s)\<close> of a string is that string, and \<^verbatim>\<open>str(float('nan'))\<close> is \<^verbatim>\<open>'nan'\<close>.\<close>

definition py_str :: "pylib \<Rightarrow> raw \<Rightarrow> string" where
  "py_str lib v = (case v of RStr s \<Rightarrow> s | RFloat NaN \<Rightarrow> ''nan'' | _ \<Rightarrow> str_of lib v)"

text \<open>
  \<^verbatim>\<open>str.isspace\<close> on the code points below 256: the characters are read as code
  points, so text beyond Latin-1 is outside this development.
\<close>

definition isspace :: "char \<Rightarrow> bool" where
  "isspace c = ((of_char c :: nat) \<in> {9, 10, 11, 12, 13, 28, 29, 30, 31, 32, 133, 160})"

text \<open>\<^verbatim>\<open>s.strip()\<close>.\<close>

definition strip :: "string \<Rightarrow> string" where
  "strip s = rev (dropWhile isspace (rev (dropWhile isspace s)))"

subsection \<open>Validating and casting a row\<close>

text \<open>
  \<^verbatim>\<open>if isinstance(val, str) and val.strip() == '': val = None\<close>
\<close>

definition blank_to_None :: "raw \<Rightarrow> raw" where
  "blank_to_None val = (case val of RStr s \<Rightarrow> (if strip s = [] then RNone else val) | _ \<Rightarrow> val)"

text \<open>The body of the \<^verbatim>\<open>try\<close>: the value assigned to \<^verbatim>\<open>out[name]\<close>, or the exception raised.\<close>

definition cast_value :: "pylib \<Rightarrow> field_type \<Rightarrow> raw \<Rightarrow> exn + tval" where
  "cast_value lib ft val =
     (if ft = Number then
        (case py_float lib val of Inl e \<Rightarrow> Inl e | Inr x \<Rightarrow> Inr (VFloat x))
      else if ft = Date then
        (case val of
           RDate d \<Rightarrow> Inr (VDate d)
         | _ \<Rightarrow> (case to_datetime_date lib val of Inl e \<Rightarrow> Inl e | Inr d \<Rightarrow> Inr (VDate d)))
      else Inr (VStr (py_str lib val)))"

text \<open>\<^verbatim>\<open>f"Error casting field '{name}' to {ftype}: {e}"\<close>\<close>

definition cast_error :: "string \<Rightarrow> field_type \<Rightarrow> exn \<Rightarrow> string" where
  "cast_error nm ft e =
     ''Error casting field '' @ [CHR 39] @ nm @ [CHR 39] @ '' to '' @ type_str ft @ '': '' @ exn_str e"

text \<open>
  One field of a row: \<^verbatim>\<open>row_dict.get(name, None)\<close>, the blank string taken as
  \<^verbatim>\<open>None\<close>, and then either \<^verbatim>\<open>None\<close> or the cast. \<open>Inl\<close> is the exception the
  \<^verbatim>\<open>try\<close> body raises.
\<close>

definition cast_field :: "pylib \<Rightarrow> field_type \<Rightarrow> raw option \<Rightarrow> exn + tval" where
  "cast_field lib ft got =
     (let val = (case got of None \<Rightarrow> RNone | Some v \<Rightarrow> v);
          val = blank_to_None val
      in if val = RNone then Inr VNone else cast_value lib ft val)"

text \<open>
  The loop over the schema, with the dict \<^verbatim>\<open>out\<close> built so far. The result
  \<open>Returns (Inl msg)\<close> is \<^verbatim>\<open>(False, msg)\<close>, \<open>Returns (Inr out)\<close> is
  \<^verbatim>\<open>(True, out)\<close>, and \<open>Raises e\<close> is an exception that \<^verbatim>\<open>except Exception\<close>
  does not catch.
\<close>

fun validate_loop ::
  "pylib \<Rightarrow> field list \<Rightarrow> (string \<rightharpoonup> raw) \<Rightarrow> row \<Rightarrow> (string + row) result" where
  "validate_loop lib [] row_dict out = Returns (Inr out)"
| "validate_loop lib (f # fs) row_dict out =
     (case cast_field lib (ftype f) (row_dict (name f)) of
        Inr v \<Rightarrow> validate_loop lib fs row_dict (AList.update (name f) v out)
      | Inl e \<Rightarrow>
          (if is_Exception e then Returns (Inl (cast_error (name f) (ftype f) e))
           else Raises e))"

definition validate_and_cast ::
  "pylib \<Rightarrow> field list \<Rightarrow> (string \<rightharpoonup> raw) \<Rightarrow> (string + row) result" where
  "validate_and_cast lib sch row_dict = validate_loop lib sch row_dict []"

subsection \<open>Session state\<close>

text \<open>
  \<^verbatim>\<open>st.session_state\<close>. The dict \<^verbatim>\<open>temp_fields\<close> has the keys
  \<^verbatim>\<open>name_i\<close> and \<^verbatim>\<open>type_i\<close>; it is kept as two maps from \<open>i\<close>, one
  for the names and one for the types.
\<close>

record session_state =
  schema :: "field list"
  rows :: "row list"
  num_vars :: nat
  temp_names :: "nat \<rightharpoonup> string"
  temp_types :: "nat \<rightharpoonup> field_type"

text \<open>\<^verbatim>\<open>init_state\<close> on a fresh session.\<close>

definition init_state :: session_state where
  "init_state =
     \<lparr>schema = [], rows = [], num_vars = 3, temp_names = Map.empty, temp_types = Map.empty\<rparr>"

text \<open>
  What a handler shows: \<^verbatim>\<open>st.error\<close>, \<^verbatim>\<open>st.warning\<close> and
  \<^verbatim>\<open>st.success\<close>. The messages that print a Python list keep the list.
\<close>

datatype ui =
    Error_text string
  | Error_missing_columns "string list"
  | Warning_failed_rows "string list"
  | Success_schema_saved
  | Success_row_added
  | Success_imported nat

text \<open>
  How a handler ends: the script goes on, \<^verbatim>\<open>st.rerun()\<close> restarts it, or an
  exception leaves the handler.
\<close>

datatype exit = Completed | Rerun | Propagated exn

type_synonym outcome = "session_state \<times> ui list \<times> exit"

subsection \<open>Defining the schema\<close>

text \<open>The number input, bounded by \<^verbatim>\<open>min_value=1\<close> and \<^verbatim>\<open>max_value=50\<close>.\<close>

definition set_num_vars :: "nat \<Rightarrow> session_state \<Rightarrow> outcome" where
  "set_num_vars n s =
     (if 1 \<le> n \<and> n \<le> 50 \<and> n \<noteq> num_vars s then (s\<lparr>num_vars := n\<rparr>, [], Completed)
      else (s, [], Completed))"

text \<open>The button \<^verbatim>\<open>Create fields\<close>.\<close>

definition create_fields :: "session_state \<Rightarrow> outcome" where
  "create_fields s =
     (s\<lparr>temp_names := fold (\<lambda>i m. m(i \<mapsto> [])) [0..<num_vars s] Map.empty,
        temp_types := fold (\<lambda>i m. m(i \<mapsto> Short_text)) [0..<num_vars s] Map.empty\<rparr>,
      [], Rerun)"

text \<open>The widgets of variable \<open>i\<close>, whose values are written to \<^verbatim>\<open>temp_fields\<close>.\<close>

definition edit_field :: "nat \<Rightarrow> string \<Rightarrow> field_type \<Rightarrow> session_state \<Rightarrow> outcome" where
  "edit_field i new_name new_type s =
     (if i < num_vars s \<and> (temp_names s i \<noteq> Some new_name \<or> temp_types s i \<noteq> Some new_type)
      then (s\<lparr>temp_names := (temp_names s)(i \<mapsto> new_name),
               temp_types := (temp_types s)(i \<mapsto> new_type)\<rparr>, [], Completed)
      else (s, [], Completed))"

text \<open>\<^verbatim>\<open>str(n)\<close> of a natural number, as the f-strings print it.\<close>

fun str_nat :: "nat \<Rightarrow> string" where
  "str_nat n =
     (if n < 10 then [''0123456789'' ! n] else str_nat (n div 10) @ [''0123456789'' ! (n mod 10)])"

declare str_nat.simps [simp del]

text \<open>
  \<^verbatim>\<open>temp_fields.get(f'name_{i}', '').strip()\<close> and
  \<^verbatim>\<open>temp_fields.get(f'type_{i}', 'short text')\<close>.
\<close>

definition draft_name :: "(nat \<rightharpoonup> string) \<Rightarrow> nat \<Rightarrow> string" where
  "draft_name names i = strip (case names i of None \<Rightarrow> [] | Some v \<Rightarrow> v)"

definition draft_type :: "(nat \<rightharpoonup> field_type) \<Rightarrow> nat \<Rightarrow> field_type" where
  "draft_type types i = (case types i of None \<Rightarrow> Short_text | Some t \<Rightarrow> t)"

text \<open>The entry \<^verbatim>\<open>{'name': nm, 'type': tp}\<close> that the loop appends for index \<open>i\<close>.\<close>

definition draft_field :: "(nat \<rightharpoonup> string) \<Rightarrow> (nat \<rightharpoonup> field_type) \<Rightarrow> nat \<Rightarrow> field" where
  "draft_field names types i = \<lparr>name = draft_name names i, ftype = draft_type types i\<rparr>"

text \<open>
  The loop of the button \<^verbatim>\<open>Save schema\<close> over the remaining indices, with
  \<^verbatim>\<open>seen\<close> and \<^verbatim>\<open>new_schema\<close>. \<open>Inl msg\<close> is the \<^verbatim>\<open>break\<close> with
  \<^verbatim>\<open>ok = False\<close>.
\<close>

fun save_loop ::
  "(nat \<rightharpoonup> string) \<Rightarrow> (nat \<rightharpoonup> field_type) \<Rightarrow> nat list \<Rightarrow> string set \<Rightarrow> field list
     \<Rightarrow> string + field list" where
  "save_loop names types [] seen new_schema = Inr new_schema"
| "save_loop names types (i # is) seen new_schema =
     (let nm = draft_name names i;
          tp = draft_type types i
      in if nm = [] then Inl (''Variable name #'' @ str_nat (i + 1) @ '' is empty.'')
         else if nm \<in> seen then
           Inl (''Duplicate variable name: '' @ [CHR 39] @ nm @ [CHR 39] @ ''.'')
         else save_loop names types is (insert nm seen)
                (new_schema @ [\<lparr>name = nm, ftype = tp\<rparr>]))"

definition save_schema :: "session_state \<Rightarrow> outcome" where
  "save_schema s =
     (case save_loop (temp_names s) (temp_types s) [0..<num_vars s] {} [] of
        Inl msg \<Rightarrow> (s, [Error_text msg], Completed)
      | Inr new_schema \<Rightarrow>
          (s\<lparr>schema := new_schema, rows := [],
              temp_names := Map.empty, temp_types := Map.empty\<rparr>,
           [Success_schema_saved], Rerun))"

text \<open>The buttons \<^verbatim>\<open>Reset schema and data\<close> and \<^verbatim>\<open>Clear data (keep schema)\<close>.\<close>

definition reset_schema :: "session_state \<Rightarrow> outcome" where
  "reset_schema s = (s\<lparr>schema := [], rows := []\<rparr>, [], Rerun)"

definition clear_data :: "session_state \<Rightarrow> outcome" where
  "clear_data s = (s\<lparr>rows := []\<rparr>, [], Rerun)"

subsection \<open>Entering rows\<close>

text \<open>The form \<^verbatim>\<open>add_row_form\<close>, submitted with the values \<^verbatim>\<open>new_row\<close>.\<close>

definition submit_row :: "pylib \<Rightarrow> (string \<rightharpoonup> raw) \<Rightarrow> session_state \<Rightarrow> outcome" where
  "submit_row lib new_row s =
     (case validate_and_cast lib (schema s) new_row of
        Raises e \<Rightarrow> (s, [], Propagated e)
      | Returns (Inl msg) \<Rightarrow> (s, [Error_text msg], Completed)
      | Returns (Inr out) \<Rightarrow> (s\<lparr>rows := rows s @ [out]\<rparr>, [Success_row_added], Rerun))"

subsection \<open>Uploading a file\<close>

text \<open>
  \<^verbatim>\<open>df_new[expected_cols]\<close>: the cells of the columns asked for, in that order. It is
  called only when every one of them is a column of the frame; the branch for a label
  that is not there is never taken on a rectangular frame.
\<close>

definition cell_at :: "string list \<Rightarrow> raw list \<Rightarrow> string \<Rightarrow> raw" where
  "cell_at cols r c = (case map_of (zip cols r) c of Some v \<Rightarrow> v | None \<Rightarrow> RFloat NaN)"

definition frame_select :: "raw frame \<Rightarrow> string list \<Rightarrow> raw frame" where
  "frame_select df cols =
     \<lparr>columns = cols, data = map (\<lambda>r. map (cell_at (columns df) r) cols) (data df)\<rparr>"

text \<open>\<^verbatim>\<open>r.to_dict()\<close> of a row of a frame with the columns \<open>cols\<close>.\<close>

definition to_dict :: "string list \<Rightarrow> raw list \<Rightarrow> (string \<rightharpoonup> raw)" where
  "to_dict cols r = map_of (zip cols r)"

text \<open>The dicts \<^verbatim>\<open>r.to_dict()\<close> of the rows \<^verbatim>\<open>r\<close> of \<^verbatim>\<open>df.iterrows()\<close>, in order.\<close>

definition frame_dicts :: "raw frame \<Rightarrow> (string \<rightharpoonup> raw) list" where
  "frame_dicts df = map (to_dict (columns df)) (data df)"

text \<open>
  The loop over \<^verbatim>\<open>df_new.iterrows()\<close>, with the rows of the session,
  \<^verbatim>\<open>bad_rows\<close> and \<^verbatim>\<open>added\<close>. The rows are appended to the session state in
  place, so they stay appended when an exception leaves the loop: the last component is
  that exception.
\<close>

fun import_loop ::
  "pylib \<Rightarrow> field list \<Rightarrow> (string \<rightharpoonup> raw) list \<Rightarrow> row list \<Rightarrow> string list \<Rightarrow> nat
     \<Rightarrow> row list \<times> string list \<times> nat \<times> exn option" where
  "import_loop lib sch [] rws bad_rows added = (rws, bad_rows, added, None)"
| "import_loop lib sch (rowdict # rest) rws bad_rows added =
     (case validate_and_cast lib sch rowdict of
        Raises e \<Rightarrow> (rws, bad_rows, added, Some e)
      | Returns (Inl res) \<Rightarrow> import_loop lib sch rest rws (bad_rows @ [res]) added
      | Returns (Inr res) \<Rightarrow> import_loop lib sch rest (rws @ [res]) bad_rows (added + 1))"

text \<open>
  The block under \<^verbatim>\<open>if uploaded is not None\<close>, for the text of the uploaded file. An
  \<^verbatim>\<open>Exception\<close> raised inside the \<^verbatim>\<open>try\<close> is reported with \<^verbatim>\<open>st.error\<close>.
\<close>

definition upload_csv :: "pylib \<Rightarrow> string \<Rightarrow> session_state \<Rightarrow> outcome" where
  "upload_csv lib uploaded s =
     (case read_csv lib uploaded of
        Inl e \<Rightarrow>
          (if is_Exception e then (s, [Error_text (''Error reading CSV: '' @ exn_str e)], Completed)
           else (s, [], Propagated e))
      | Inr df_new \<Rightarrow>
          (let expected_cols = map name (schema s);
               missing = filter (\<lambda>c. c \<notin> set (columns df_new)) expected_cols
           in if missing \<noteq> [] then (s, [Error_missing_columns missing], Completed)
              else
                (let df = frame_select df_new expected_cols;
                     (rws, bad_rows, added, raised) =
                        import_loop lib (schema s) (frame_dicts df) (rows s) [] 0;
                     s' = s\<lparr>rows := rws\<rparr>
                 in case raised of
                      Some e \<Rightarrow>
                        (if is_Exception e
                         then (s', [Error_text (''Error reading CSV: '' @ exn_str e)], Completed)
                         else (s', [], Propagated e))
                    | None \<Rightarrow>
                        (s', (if bad_rows \<noteq> [] then [Warning_failed_rows (take 5 bad_rows)] else [])
                               @ [Success_imported added], Rerun))))"

subsection \<open>The table and its download\<close>

text \<open>
  \<^verbatim>\<open>schema_to_dataframe\<close>: \<^verbatim>\<open>pd.DataFrame(rows, columns=cols)\<close> has one cell for
  each row and column, missing where the row has no such key.
\<close>

definition schema_to_dataframe :: "session_state \<Rightarrow> tval frame" where
  "schema_to_dataframe s =
     (if schema s = [] then \<lparr>columns = [], data = []\<rparr>
      else
        (let cols = map name (schema s)
         in \<lparr>columns = cols,
             data = map (\<lambda>r. map (\<lambda>c. case map_of r c of Some v \<Rightarrow> v | None \<Rightarrow> VNone) cols)
                      (rows s)\<rparr>))"

text \<open>\<^verbatim>\<open>df.empty\<close>: no column or no row.\<close>

definition df_empty :: "'a frame \<Rightarrow> bool" where
  "df_empty df = (columns df = [] \<or> data df = [])"

text \<open>The text behind the download button, which is shown only for a table that is not empty.\<close>

definition download_csv :: "pylib \<Rightarrow> session_state \<Rightarrow> string option" where
  "download_csv lib s =
     (let df = schema_to_dataframe s in if df_empty df then None else Some (to_csv lib df))"

subsection \<open>The script as a sequence of interactions\<close>

text \<open>
  One interaction of the user with the page. The buttons under
  \<^verbatim>\<open>if st.session_state.schema\<close> exist only while the schema is not empty.
\<close>

datatype event =
    Set_num_vars nat
  | Create_fields
  | Edit_field nat string field_type
  | Save_schema
  | Reset_schema
  | Clear_data
  | Submit_row "string \<rightharpoonup> raw"
  | Upload_csv string

fun handle :: "pylib \<Rightarrow> event \<Rightarrow> session_state \<Rightarrow> outcome" where
  "handle lib (Set_num_vars n) s = set_num_vars n s"
| "handle lib Create_fields s = create_fields s"
| "handle lib (Edit_field i nm tp) s = edit_field i nm tp s"
| "handle lib Save_schema s = save_schema s"
| "handle lib Reset_schema s = (if schema s \<noteq> [] then reset_schema s else (s, [], Completed))"
| "handle lib Clear_data s = (if schema s \<noteq> [] then clear_data s else (s, [], Completed))"
| "handle lib (Submit_row new_row) s =
     (if schema s \<noteq> [] then submit_row lib new_row s else (s, [], Completed))"
| "handle lib (Upload_csv uploaded) s =
     (if schema s \<noteq> [] then upload_csv lib uploaded s else (s, [], Completed))"

text \<open>The session state after a sequence of interactions.\<close>

fun run :: "pylib \<Rightarrow> event list \<Rightarrow> session_state \<Rightarrow> session_state" where
  "run lib [] s = s"
| "run lib (ev # evs) s = run lib evs (fst (handle lib ev s))"

text \<open>Every stored row has the names of the schema as its keys.\<close>

definition rows_match_schema :: "session_state \<Rightarrow> bool" where
  "rows_match_schema s = (\<forall>r\<in>set (rows s). fst ` set r = name ` set (schema s))"

text \<open>
  Exporting the table and importing the exported text into the emptied store, under the
  same schema: the rows that the store holds afterwards, when there is a download at all.
\<close>

definition export_then_import :: "pylib \<Rightarrow> session_state \<Rightarrow> row list option" where
  "export_then_import lib s =
     (case download_csv lib s of
        None \<Rightarrow> None
      | Some text \<Rightarrow> Some (rows (fst (upload_csv lib text (fst (clear_data s))))))"

subsection \<open>Notions for the properties of an upload\<close>

text \<open>A frame is rectangular: every row has one cell for each column.\<close>

definition rectangular :: "'a frame \<Rightarrow> bool" where
  "rectangular df = list_all (\<lambda>r. length r = length (columns df)) (data df)"

text \<open>
  The messages that \<^verbatim>\<open>st.error\<close> shows, and the exception that leaves a handler, if
  one does.
\<close>

fun is_error :: "ui \<Rightarrow> bool" where
  "is_error (Error_text m) = True"
| "is_error (Error_missing_columns cs) = True"
| "is_error u = False"

fun propagated :: "outcome \<Rightarrow> exn option" where
  "propagated (s, msgs, Propagated e) = Some e"
| "propagated (s, msgs, x) = None"

subsection \<open>What the library may raise\<close>

text \<open>
  \<^verbatim>\<open>float\<close> and \<^verbatim>\<open>pd.to_datetime\<close> report a value they cannot convert with a
  \<^verbatim>\<open>ValueError\<close>, a \<^verbatim>\<open>TypeError\<close> or another subclass of \<^verbatim>\<open>Exception\<close>, and
  so does \<^verbatim>\<open>pd.read_csv\<close> for a file it cannot parse.
\<close>

definition casts_raise_Exception :: "pylib \<Rightarrow> bool" where
  "casts_raise_Exception lib =
     ((\<forall>v e. float_of lib v = Inl e \<longrightarrow> is_Exception e) \<and>
      (\<forall>v e. to_datetime_date lib v = Inl e \<longrightarrow> is_Exception e))"

definition read_csv_raises_Exception :: "pylib \<Rightarrow> bool" where
  "read_csv_raises_Exception lib = (\<forall>t e. read_csv lib t = Inl e \<longrightarrow> is_Exception e)"

subsection \<open>The verdicts of a batch\<close>

text \<open>The rows accepted and the messages of the rows refused, among the verdicts of a batch.\<close>

fun accepted :: "(string + row) result list \<Rightarrow> row list" where
  "accepted [] = []"
| "accepted (Returns (Inr out) # vs) = out # accepted vs"
| "accepted (v # vs) = accepted vs"

fun refused :: "(string + row) result list \<Rightarrow> string list" where
  "refused [] = []"
| "refused (Returns (Inl msg) # vs) = msg # refused vs"
| "refused (v # vs) = refused vs"

subsection \<open>A small library for the examples\<close>

text \<open>
  An instance of the library functions on which the definitions can be run. It agrees
  with Python and pandas on the values the examples below use: strings of decimal digits
  and words as numbers, dates written \<^verbatim>\<open>YYYY-MM-DD\<close>, and tables of text without
  quoting, whose missing values are written as empty cells and whose empty cells are read
  as the float not-a-number.
\<close>

definition is_digit :: "char \<Rightarrow> bool" where
  "is_digit c = (c \<in> set ''0123456789'')"

definition nat_of_digits :: "string \<Rightarrow> nat" where
  "nat_of_digits s = foldl (\<lambda>n c. 10 * n + (of_char c - 48)) 0 s"

definition demo_float_of :: "raw \<Rightarrow> exn + pyfloat" where
  "demo_float_of v =
     (case v of
        RStr s \<Rightarrow>
          (if s \<noteq> [] \<and> list_all is_digit s then Inr (Finite (of_nat (nat_of_digits s)))
           else Inl (Exception (''could not convert string to float: '' @ [CHR 39] @ s @ [CHR 39])))
      | RInt n \<Rightarrow> Inr (Finite (of_int n))
      | RBool b \<Rightarrow> Inr (Finite (if b then 1 else 0))
      | _ \<Rightarrow> Inl (Exception ''float() argument must be a string or a real number''))"

definition days_in_month :: "nat \<Rightarrow> nat \<Rightarrow> nat" where
  "days_in_month y m =
     (if m = 2 then (if (y mod 4 = 0 \<and> y mod 100 \<noteq> 0) \<or> y mod 400 = 0 then 29 else 28)
      else if m \<in> {4, 6, 9, 11} then 30 else 31)"

definition demo_to_datetime_date :: "raw \<Rightarrow> exn + date" where
  "demo_to_datetime_date v =
     (case v of
        RStr s \<Rightarrow>
          (let y = nat_of_digits (take 4 s);
               m = nat_of_digits (take 2 (drop 5 s));
               d = nat_of_digits (drop 8 s)
           in if length s = 10 \<and> s ! 4 = CHR ''-'' \<and> s ! 7 = CHR ''-''
                 \<and> list_all is_digit (take 4 s @ take 2 (drop 5 s) @ drop 8 s)
                 \<and> 1 \<le> y \<and> 1 \<le> m \<and> m \<le> 12 \<and> 1 \<le> d \<and> d \<le> days_in_month y m
              then Inr (Ymd y m d)
              else Inl (Exception (''Unknown datetime string format, unable to parse: '' @ s)))
      | _ \<Rightarrow> Inl (Exception ''NaTType does not support date''))"

definition pad :: "nat \<Rightarrow> nat \<Rightarrow> string" where
  "pad w n = replicate (w - length (str_nat n)) CHR ''0'' @ str_nat n"

definition isoformat :: "date \<Rightarrow> string" where
  "isoformat d = pad 4 (year d) @ ''-'' @ pad 2 (month d) @ ''-'' @ pad 2 (day d)"

text \<open>The text of a float, for the infinities and the whole numbers.\<close>

definition demo_str_float :: "pyfloat \<Rightarrow> string" where
  "demo_str_float x =
     (case x of
        NaN \<Rightarrow> ''nan''
      | PosInf \<Rightarrow> ''inf''
      | NegInf \<Rightarrow> ''-inf''
      | Finite q \<Rightarrow> (if q < 0 then ''-'' else []) @ str_nat (nat \<lfloor>\<bar>q\<bar>\<rfloor>) @ ''.0'')"

definition demo_str_of :: "raw \<Rightarrow> string" where
  "demo_str_of v =
     (case v of
        RNone \<Rightarrow> ''None''
      | RStr s \<Rightarrow> s
      | RFloat x \<Rightarrow> demo_str_float x
      | RInt n \<Rightarrow> (if n < 0 then ''-'' else []) @ str_nat (nat \<bar>n\<bar>)
      | RBool b \<Rightarrow> (if b then ''True'' else ''False'')
      | RDate d \<Rightarrow> isoformat d)"

text \<open>Joining with a separator after every item, and splitting at a separator.\<close>

fun join_with :: "char \<Rightarrow> string list \<Rightarrow> string" where
  "join_with sep [] = []"
| "join_with sep [x] = x"
| "join_with sep (x # xs) = x @ sep # join_with sep xs"

fun split_on :: "char \<Rightarrow> string \<Rightarrow> string \<Rightarrow> string list" where
  "split_on sep acc [] = [acc]"
| "split_on sep acc (c # cs) =
     (if c = sep then acc # split_on sep [] cs else split_on sep (acc @ [c]) cs)"

definition demo_cell :: "tval \<Rightarrow> string" where
  "demo_cell v =
     (case v of
        VNone \<Rightarrow> []
      | VStr s \<Rightarrow> s
      | VFloat x \<Rightarrow> (if x = NaN then [] else demo_str_float x)
      | VDate d \<Rightarrow> isoformat d)"

definition demo_to_csv :: "tval frame \<Rightarrow> string" where
  "demo_to_csv df =
     concat (map (\<lambda>l. join_with CHR '','' l @ [CHR 10])
       (columns df # map (map demo_cell) (data df)))"

definition demo_read_csv :: "string \<Rightarrow> exn + raw frame" where
  "demo_read_csv text =
     (case filter (\<lambda>l. l \<noteq> []) (split_on (CHR 10) [] text) of
        [] \<Rightarrow> Inl (Exception ''No columns to parse from file'')
      | header # ls \<Rightarrow>
          Inr \<lparr>columns = split_on CHR '','' [] header,
               data = map (\<lambda>l. map (\<lambda>c. if c = [] then RFloat NaN else RStr c)
                                 (split_on CHR '','' [] l)) ls\<rparr>)"

definition demo_lib :: pylib where
  "demo_lib =
     \<lparr>float_of = demo_float_of, str_of = demo_str_of,
      to_datetime_date = demo_to_datetime_date,
      to_csv = demo_to_csv, read_csv = demo_read_csv\<rparr>"

text \<open>A schema and a store for the examples.\<close>

definition demo_schema :: "field list" where
  "demo_schema = [\<lparr>name = ''who'', ftype = Short_text\<rparr>, \<lparr>name = ''age'', ftype = Number\<rparr>,
     \<lparr>name = ''joined'', ftype = Date\<rparr>]"

text \<open>A session on which the examples run: two fields are defined and one row is entered.\<close>

definition demo_events :: "event list" where
  "demo_events =
     [Set_num_vars 2, Create_fields, Edit_field 0 ''age'' Number, Edit_field 1 '' joined '' Date,
      Save_schema, Submit_row [''age'' \<mapsto> RStr ''30'', ''extra'' \<mapsto> RStr ''x'']]"

definition demo_rows :: "row list" where
  "demo_rows = [[(''who'', VStr ''Bob''), (''age'', VNone), (''joined'', VNone)]]"

text \<open>
  A session with the schema and the row above, the error that \<^verbatim>\<open>float\<close> gives for a
  word in the field \<^verbatim>\<open>age\<close>, and uploaded files: one with six malformed and two
  well-formed rows and the frame that is read from it, one that lacks a column of the
  schema, and two that differ in a column outside the schema only.
\<close>

definition demo_state :: session_state where
  "demo_state =
     \<lparr>schema = demo_schema, rows = demo_rows, num_vars = 3,
      temp_names = Map.empty, temp_types = Map.empty\<rparr>"

definition demo_age_error :: "string \<Rightarrow> string" where
  "demo_age_error x =
     cast_error ''age'' Number
       (Exception (''could not convert string to float: '' @ [CHR 39] @ x @ [CHR 39]))"

definition text_of_lines :: "string list \<Rightarrow> string" where
  "text_of_lines ls = concat (map (\<lambda>l. l @ [CHR 10]) ls)"

definition demo_file :: string where
  "demo_file =
     text_of_lines
       [''who,age,joined'', ''A,x1,'', ''B,,2023-01-05'', ''C,x2,'', ''D,x3,'', ''E,x4,'',
        ''F,x5,'', ''G,x6,'', ''H,,2024-02-29'']"

definition demo_frame :: "raw frame" where
  "demo_frame =
     \<lparr>columns = [''who'', ''age'', ''joined''],
      data =
        [[RStr ''A'', RStr ''x1'', RFloat NaN],
         [RStr ''B'', RFloat NaN, RStr ''2023-01-05''],
         [RStr ''C'', RStr ''x2'', RFloat NaN],
         [RStr ''D'', RStr ''x3'', RFloat NaN],
         [RStr ''E'', RStr ''x4'', RFloat NaN],
         [RStr ''F'', RStr ''x5'', RFloat NaN],
         [RStr ''G'', RStr ''x6'', RFloat NaN],
         [RStr ''H'', RFloat NaN, RStr ''2024-02-29'']]\<rparr>"

definition demo_file_short :: string where
  "demo_file_short = text_of_lines [''who,age'', ''Ann,'']"

definition demo_file_plain :: string where
  "demo_file_plain = text_of_lines [''who,age,joined'', ''Ann,,2023-01-05'']"

definition demo_file_extra :: string where
  "demo_file_extra = text_of_lines [''extra,joined,who,age'', ''zzz,2023-01-05,Ann,'']"

text \<open>
  A session in which two text fields are defined and one row is entered whose note is left
  blank.
\<close>

definition notes_events :: "event list" where
  "notes_events =
     [Set_num_vars 2, Edit_field 0 ''who'' Short_text, Edit_field 1 ''note'' Short_text,
      Save_schema, Submit_row [''who'' \<mapsto> RStr ''Ann'', ''note'' \<mapsto> RStr '''']]"

section \<open>Properties\<close>

subsection \<open>Blank values\<close>

lemma all_dropWhile: "(\<forall>x\<in>set (dropWhile P s). P x) \<longleftrightarrow> (\<forall>x\<in>set s. P x)"
  by (induction s) auto

lemma strip_empty_iff: "strip s = [] \<longleftrightarrow> (\<forall>c\<in>set s. isspace c)"
  by (simp add: strip_def dropWhile_eq_Nil_conv all_dropWhile)

lemma cast_field_None: "cast_field lib ft None = Inr VNone"
  by (simp add: cast_field_def blank_to_None_def)

lemma cast_field_RNone: "cast_field lib ft (Some RNone) = Inr VNone"
  by (simp add: cast_field_def blank_to_None_def)

lemma cast_field_blank: "\<forall>c\<in>set s. isspace c \<Longrightarrow> cast_field lib ft (Some (RStr s)) = Inr VNone"
  by (simp add: cast_field_def blank_to_None_def strip_empty_iff)

lemma blank_to_None_eq: "blank_to_None v = RNone \<longleftrightarrow> v = RNone \<or> (\<exists>s. v = RStr s \<and> (\<forall>c\<in>set s. isspace c))"
  by (cases v) (auto simp: blank_to_None_def strip_empty_iff)

lemma cast_field_error:
  "cast_field lib ft got = Inl e \<Longrightarrow> \<exists>v. got = Some v \<and> blank_to_None v \<noteq> RNone \<and> cast_value lib ft v = Inl e"
  apply (cases got)
  apply (auto simp: cast_field_def Let_def blank_to_None_def split: if_splits raw.splits)
  done

lemma cast_field_NaN_text:
  "ft \<noteq> Number \<Longrightarrow> ft \<noteq> Date \<Longrightarrow> cast_field lib ft (Some (RFloat NaN)) = Inr (VStr ''nan'')"
  by (simp add: cast_field_def blank_to_None_def cast_value_def py_str_def)

lemma cast_field_NaN_number: "cast_field lib Number (Some (RFloat NaN)) = Inr (VFloat NaN)"
  by (simp add: cast_field_def blank_to_None_def cast_value_def py_float_def)

subsection \<open>The loop of \<^verbatim>\<open>validate_and_cast\<close>\<close>

text \<open>While the fields cast, the loop goes on with a longer \<^verbatim>\<open>out\<close>.\<close>

lemma validate_loop_append_ok:
  "\<forall>g\<in>set pre. \<exists>v. cast_field lib (ftype g) (row_dict (name g)) = Inr v \<Longrightarrow>
   \<exists>out'. validate_loop lib (pre @ fs) row_dict out = validate_loop lib fs row_dict out'"
  by (induction pre arbitrary: out) auto

lemma validate_loop_first_failure:
  assumes "\<forall>g\<in>set pre. \<exists>v. cast_field lib (ftype g) (row_dict (name g)) = Inr v"
    and "cast_field lib (ftype f) (row_dict (name f)) = Inl e"
  shows "validate_loop lib (pre @ f # post) row_dict out =
           (if is_Exception e then Returns (Inl (cast_error (name f) (ftype f) e)) else Raises e)"
proof -
  obtain out' where "validate_loop lib (pre @ f # post) row_dict out = validate_loop lib (f # post) row_dict out'"
    using validate_loop_append_ok [OF assms(1)] by blast
  then show ?thesis using assms(2) by simp
qed

lemma validate_loop_keys:
  "validate_loop lib sch row_dict out = Returns (Inr out') \<Longrightarrow>
   fst ` set out' = fst ` set out \<union> name ` set sch"
proof (induction sch arbitrary: out)
  case Nil
  then show ?case by simp
next
  case (Cons f fs)
  from Cons.prems obtain v where
    v: "cast_field lib (ftype f) (row_dict (name f)) = Inr v" and
    rest: "validate_loop lib fs row_dict (AList.update (name f) v out) = Returns (Inr out')"
    by (auto split: sum.splits if_splits)
  from Cons.IH [OF rest] show ?case by (auto simp: AList.dom_update)
qed

lemma validate_loop_untouched:
  "validate_loop lib sch row_dict out = Returns (Inr out') \<Longrightarrow> n \<notin> name ` set sch \<Longrightarrow>
   map_of out' n = map_of out n"
proof (induction sch arbitrary: out)
  case Nil
  then show ?case by simp
next
  case (Cons f fs)
  from Cons.prems obtain v where
    rest: "validate_loop lib fs row_dict (AList.update (name f) v out) = Returns (Inr out')"
    by (auto split: sum.splits if_splits)
  from Cons.prems have "n \<notin> name ` set fs" "n \<noteq> name f" by auto
  with Cons.IH [OF rest] show ?case by (simp add: AList.update_conv')
qed

lemma validate_loop_missing_key:
  "validate_loop lib sch row_dict out = Returns (Inr out') \<Longrightarrow> n \<in> name ` set sch \<Longrightarrow>
   row_dict n = None \<Longrightarrow> map_of out' n = Some VNone"
proof (induction sch arbitrary: out)
  case Nil
  then show ?case by simp
next
  case (Cons f fs)
  from Cons.prems obtain v where
    v: "cast_field lib (ftype f) (row_dict (name f)) = Inr v" and
    rest: "validate_loop lib fs row_dict (AList.update (name f) v out) = Returns (Inr out')"
    by (auto split: sum.splits if_splits)
  show ?case
  proof (cases "n \<in> name ` set fs")
    case True
    then show ?thesis using Cons.IH [OF rest] Cons.prems(3) by simp
  next
    case False
    with Cons.prems(2) have n: "n = name f" by auto
    with v Cons.prems(3) have "v = VNone" by (simp add: cast_field_None)
    moreover have "map_of out' n = map_of (AList.update (name f) v out) n"
      using validate_loop_untouched [OF rest False] .
    ultimately show ?thesis using n by (simp add: AList.update_conv')
  qed
qed

lemma validate_loop_distinct_keys:
  "validate_loop lib sch row_dict out = Returns (Inr out') \<Longrightarrow> distinct (map name sch) \<Longrightarrow>
   fst ` set out \<inter> name ` set sch = {} \<Longrightarrow> map fst out' = map fst out @ map name sch"
proof (induction sch arbitrary: out)
  case Nil
  then show ?case by simp
next
  case (Cons f fs)
  from Cons.prems obtain v where
    rest: "validate_loop lib fs row_dict (AList.update (name f) v out) = Returns (Inr out')"
    by (auto split: sum.splits if_splits)
  from Cons.prems have nf: "name f \<notin> fst ` set out" by auto
  then have upd: "AList.update (name f) v out = out @ [(name f, v)]"
    by (induction out) auto
  have "fst ` set (AList.update (name f) v out) \<inter> name ` set fs = {}"
    using Cons.prems(2,3) by (auto simp: AList.dom_update)
  with Cons.IH [OF rest] Cons.prems(2) show ?case by (simp add: upd)
qed

lemma cast_value_raises:
  "casts_raise_Exception lib \<Longrightarrow> cast_value lib ft v = Inl e \<Longrightarrow> is_Exception e"
  unfolding casts_raise_Exception_def cast_value_def py_float_def
  by (auto split: if_splits sum.splits raw.splits)

lemma cast_field_raises:
  "casts_raise_Exception lib \<Longrightarrow> cast_field lib ft got = Inl e \<Longrightarrow> is_Exception e"
  using cast_field_error cast_value_raises by blast

lemma validate_loop_returns:
  "casts_raise_Exception lib \<Longrightarrow> \<exists>r. validate_loop lib sch row_dict out = Returns r"
  by (induction sch arbitrary: out) (auto split: sum.splits dest: cast_field_raises)

lemma validate_loop_raises:
  "validate_loop lib sch row_dict out = Raises e \<Longrightarrow> \<not> is_Exception e"
  by (induction sch arbitrary: out) (auto split: sum.splits if_splits)

subsection \<open>The loop of \<^verbatim>\<open>Save schema\<close>\<close>

text \<open>Over indices whose names are not empty and are new, the loop collects the fields.\<close>

lemma save_loop_prefix:
  assumes "\<forall>j\<in>set pre. draft_name names j \<noteq> []"
    and "distinct (map (draft_name names) pre)"
    and "draft_name names ` set pre \<inter> seen = {}"
  shows "save_loop names types (pre @ rest) seen acc =
         save_loop names types rest (seen \<union> draft_name names ` set pre)
           (acc @ map (draft_field names types) pre)"
  using assms
proof (induction pre arbitrary: seen acc)
  case Nil
  then show ?case by simp
next
  case (Cons j pre)
  from Cons.prems have a: "draft_name names j \<noteq> []" "draft_name names j \<notin> seen" by auto
  from Cons.prems have b: "\<forall>j\<in>set pre. draft_name names j \<noteq> []" "distinct (map (draft_name names) pre)"
     "draft_name names ` set pre \<inter> insert (draft_name names j) seen = {}" by auto
  have c: "insert (draft_name names j) seen \<union> draft_name names ` set pre =
           seen \<union> draft_name names ` set (j # pre)" by auto
  have "save_loop names types ((j # pre) @ rest) seen acc =
        save_loop names types (pre @ rest) (insert (draft_name names j) seen)
          (acc @ [draft_field names types j])"
    using a by (simp add: draft_field_def Let_def)
  also have "\<dots> = save_loop names types rest
          (insert (draft_name names j) seen \<union> draft_name names ` set pre)
          ((acc @ [draft_field names types j]) @ map (draft_field names types) pre)"
    by (rule Cons.IH [OF b])
  finally show ?case unfolding c by simp
qed

subsection \<open>The loop over the uploaded rows\<close>

lemma import_loop_all:
  assumes "\<forall>d\<in>set dicts. \<exists>v. validate_and_cast lib sch d = Returns v"
  shows "import_loop lib sch dicts rws bad added =
     (rws @ accepted (map (validate_and_cast lib sch) dicts),
      bad @ refused (map (validate_and_cast lib sch) dicts),
      added + length (accepted (map (validate_and_cast lib sch) dicts)), None)"
  using assms
proof (induction dicts arbitrary: rws bad added)
  case Nil
  then show ?case by simp
next
  case (Cons d dicts)
  then obtain v where v: "validate_and_cast lib sch d = Returns v" by auto
  show ?case using Cons v by (cases v) auto
qed

lemma import_loop_raised:
  "import_loop lib sch dicts rws bad added = (rws', bad', added', Some e) \<Longrightarrow> \<not> is_Exception e"
  by (induction dicts arbitrary: rws bad added)
     (auto split: result.splits sum.splits simp: validate_and_cast_def dest: validate_loop_raises)

lemma import_loop_rows:
  "import_loop lib sch dicts rws bad added = (rws', rest) \<Longrightarrow> r \<in> set rws' \<Longrightarrow>
   r \<in> set rws \<or> (\<exists>d. validate_and_cast lib sch d = Returns (Inr r))"
proof (induction dicts arbitrary: rws bad added)
  case Nil
  then show ?case by simp
next
  case (Cons d dicts)
  show ?case
  proof (cases "validate_and_cast lib sch d")
    case (Raises e)
    with Cons.prems show ?thesis by simp
  next
    case (Returns v)
    show ?thesis
    proof (cases v)
      case (Inl msg)
      with Returns Cons.prems Cons.IH [of rws "bad @ [msg]" added] show ?thesis by simp
    next
      case (Inr out)
      with Returns Cons.prems Cons.IH [of "rws @ [out]" bad "added + 1"] show ?thesis by auto
    qed
  qed
qed

lemma accepted_refused_length: "(\<forall>v\<in>set vs. \<exists>r. v = Returns r) \<Longrightarrow> length (accepted vs) + length (refused vs) = length vs"
  by (induction vs rule: accepted.induct) auto

section \<open>The claims of the specification\<close>

subsection \<open>C7: blank and absent values\<close>

text \<open>
  C7. For every field type, a raw value that is absent, \<^verbatim>\<open>None\<close> or a string of
  whitespace only casts to null and never to an error, both as one field and as a row of
  one field; and when the cast of a field raises an error, the raw value is present, is not
  \<^verbatim>\<open>None\<close> and, when it is a string, has a character that is not whitespace.
\<close>

theorem whitespace_or_absent_casts_to_null:
  "cast_field lib ft None = Inr VNone \<and>
   cast_field lib ft (Some RNone) = Inr VNone \<and>
   (list_all isspace s \<longrightarrow> cast_field lib ft (Some (RStr s)) = Inr VNone) \<and>
   (list_all isspace s \<longrightarrow>
      validate_and_cast lib [\<lparr>name = n, ftype = ft\<rparr>] [n \<mapsto> RStr s] = Returns (Inr [(n, VNone)])) \<and>
   validate_and_cast lib [\<lparr>name = n, ftype = ft\<rparr>] Map.empty = Returns (Inr [(n, VNone)]) \<and>
   (cast_field lib ft got = Inl e \<longrightarrow>
      (\<exists>v. got = Some v \<and> v \<noteq> RNone \<and> (\<forall>t. v = RStr t \<longrightarrow> \<not> list_all isspace t)))"
proof -
  have "cast_field lib ft got = Inl e \<Longrightarrow>
      \<exists>v. got = Some v \<and> v \<noteq> RNone \<and> (\<forall>t. v = RStr t \<longrightarrow> \<not> list_all isspace t)"
  proof -
    assume "cast_field lib ft got = Inl e"
    then obtain v where v: "got = Some v" "blank_to_None v \<noteq> RNone"
      using cast_field_error by blast
    then show ?thesis by (auto simp: blank_to_None_eq list_all_iff)
  qed
  then show ?thesis
    by (simp add: cast_field_None cast_field_RNone cast_field_blank validate_and_cast_def
          list_all_iff)
qed

text \<open>
  The string of three spaces casts to null in a number and in a date field, and the word
  \<^verbatim>\<open>thirty\<close>, which does raise in a number field, is not blank.
\<close>

theorem whitespace_or_absent_casts_to_null_witness:
  "list_all isspace ''   '' \<and>
   cast_field demo_lib Number (Some (RStr ''   '')) = Inr VNone \<and>
   validate_and_cast demo_lib [\<lparr>name = ''age'', ftype = Date\<rparr>] [''age'' \<mapsto> RStr ''   '']
     = Returns (Inr [(''age'', VNone)]) \<and>
   cast_field demo_lib Number (Some (RStr ''thirty''))
     = Inl (Exception (''could not convert string to float: '' @ [CHR 39] @ ''thirty'' @ [CHR 39])) \<and>
   \<not> list_all isspace ''thirty''"
proof -
  have sp: "list_all isspace ''   ''" by (simp add: isspace_def)
  have e: "cast_field demo_lib Number (Some (RStr ''thirty''))
     = Inl (Exception (''could not convert string to float: '' @ [CHR 39] @ ''thirty'' @ [CHR 39]))"
    by (simp add: cast_field_def blank_to_None_def strip_def isspace_def cast_value_def
          py_float_def demo_lib_def demo_float_of_def is_digit_def)
  from whitespace_or_absent_casts_to_null [of demo_lib Number "''   ''" "''age''" "Some (RStr ''thirty'')"
       "Exception (''could not convert string to float: '' @ [CHR 39] @ ''thirty'' @ [CHR 39])"] sp e
  have a: "cast_field demo_lib Number (Some (RStr ''   '')) = Inr VNone"
     and b: "\<not> list_all isspace ''thirty''" by auto
  from whitespace_or_absent_casts_to_null [of demo_lib Date "''   ''" "''age''"] sp
  have c: "validate_and_cast demo_lib [\<lparr>name = ''age'', ftype = Date\<rparr>] [''age'' \<mapsto> RStr ''   '']
     = Returns (Inr [(''age'', VNone)])" by blast
  from sp a b c e show ?thesis by blast
qed

subsection \<open>C10: the not-a-number float is not taken as absent\<close>

text \<open>
  C10. The normalization to \<^verbatim>\<open>None\<close> applies to \<^verbatim>\<open>None\<close> and to strings that
  strip to the empty string only. The float not-a-number, which is what pandas hands over
  for an empty cell, is left as it is: a short text or long text field casts it to the string
  \<^verbatim>\<open>nan\<close> and a number field to the float not-a-number, and the row is accepted.
\<close>

theorem nan_is_not_normalized:
  "(blank_to_None v = RNone) = (v = RNone \<or> (\<exists>s. v = RStr s \<and> strip s = [])) \<and>
   blank_to_None (RFloat NaN) = RFloat NaN \<and>
   cast_field lib Short_text (Some (RFloat NaN)) = Inr (VStr ''nan'') \<and>
   cast_field lib Long_text (Some (RFloat NaN)) = Inr (VStr ''nan'') \<and>
   cast_field lib Number (Some (RFloat NaN)) = Inr (VFloat NaN) \<and>
   validate_and_cast lib [\<lparr>name = n, ftype = Short_text\<rparr>] [n \<mapsto> RFloat NaN]
     = Returns (Inr [(n, VStr ''nan'')]) \<and>
   validate_and_cast lib [\<lparr>name = n, ftype = Long_text\<rparr>] [n \<mapsto> RFloat NaN]
     = Returns (Inr [(n, VStr ''nan'')]) \<and>
   validate_and_cast lib [\<lparr>name = n, ftype = Number\<rparr>] [n \<mapsto> RFloat NaN]
     = Returns (Inr [(n, VFloat NaN)])"
  by (simp add: blank_to_None_eq strip_empty_iff cast_field_NaN_text cast_field_NaN_number
        validate_and_cast_def) (simp add: blank_to_None_def)

text \<open>An upload with an empty cell under \<^verbatim>\<open>note\<close>, as pandas hands it over.\<close>

theorem nan_is_not_normalized_witness:
  "validate_and_cast demo_lib
     [\<lparr>name = ''note'', ftype = Short_text\<rparr>, \<lparr>name = ''age'', ftype = Number\<rparr>]
     [''note'' \<mapsto> RFloat NaN, ''age'' \<mapsto> RFloat NaN]
   = Returns (Inr [(''note'', VStr ''nan''), (''age'', VFloat NaN)])"
  using nan_is_not_normalized [of "RFloat NaN" demo_lib "''note''"]
  by (simp add: validate_and_cast_def)

subsection \<open>C4: the first failing field rejects the row\<close>

text \<open>
  C4. When the fields before \<open>f\<close> in the schema cast and the value of \<open>f\<close> raises an
  \<^verbatim>\<open>Exception\<close>, \<^verbatim>\<open>validate_and_cast\<close> returns the error of \<open>f\<close>; the result is the
  same whatever fields follow and whatever the row holds for them, so they are not
  examined; and the form shows that error and leaves the session state, and with it the
  rows, as they were.
\<close>

theorem first_failing_field_rejects_row:
  assumes "schema s = pre @ f # post"
    and "\<forall>g\<in>set pre. \<exists>v. cast_field lib (ftype g) (new_row (name g)) = Inr v"
    and "cast_field lib (ftype f) (new_row (name f)) = Inl e"
    and "is_Exception e"
  shows "validate_and_cast lib (schema s) new_row
           = Returns (Inl (cast_error (name f) (ftype f) e)) \<and>
         (\<forall>post' row'. (\<forall>g\<in>set (pre @ [f]). row' (name g) = new_row (name g)) \<longrightarrow>
            validate_and_cast lib (pre @ f # post') row'
              = Returns (Inl (cast_error (name f) (ftype f) e))) \<and>
         submit_row lib new_row s
           = (s, [Error_text (cast_error (name f) (ftype f) e)], Completed) \<and>
         handle lib (Submit_row new_row) s
           = (s, [Error_text (cast_error (name f) (ftype f) e)], Completed) \<and>
         rows (fst (handle lib (Submit_row new_row) s)) = rows s"
proof -
  have v: "validate_and_cast lib (schema s) new_row
           = Returns (Inl (cast_error (name f) (ftype f) e))"
    using validate_loop_first_failure [OF assms(2,3)] assms(1,4)
    by (simp add: validate_and_cast_def)
  have other: "validate_and_cast lib (pre @ f # post') row'
              = Returns (Inl (cast_error (name f) (ftype f) e))"
    if "\<forall>g\<in>set (pre @ [f]). row' (name g) = new_row (name g)" for post' row'
  proof -
    from that assms(2,3) have
      "\<forall>g\<in>set pre. \<exists>v. cast_field lib (ftype g) (row' (name g)) = Inr v"
      "cast_field lib (ftype f) (row' (name f)) = Inl e" by auto
    from validate_loop_first_failure [OF this] assms(4) show ?thesis
      by (simp add: validate_and_cast_def)
  qed
  have s: "submit_row lib new_row s
           = (s, [Error_text (cast_error (name f) (ftype f) e)], Completed)"
    by (simp add: submit_row_def v)
  have "schema s \<noteq> []" using assms(1) by simp
  then have h: "handle lib (Submit_row new_row) s = submit_row lib new_row s" by simp
  from v other s h show ?thesis by simp
qed

text \<open>
  A row whose age and whose date are both malformed is refused with the error of the age,
  the earlier of the two fields, and the one row of the store stays.
\<close>

theorem first_failing_field_rejects_row_witness:
  "handle demo_lib
     (Submit_row [''who'' \<mapsto> RStr ''Ann'', ''age'' \<mapsto> RStr ''thirty'', ''joined'' \<mapsto> RStr ''soon''])
     \<lparr>schema = demo_schema, rows = [[(''who'', VStr ''Bob''), (''age'', VNone), (''joined'', VNone)]],
      num_vars = 3, temp_names = Map.empty, temp_types = Map.empty\<rparr>
   = (\<lparr>schema = demo_schema, rows = [[(''who'', VStr ''Bob''), (''age'', VNone), (''joined'', VNone)]],
      num_vars = 3, temp_names = Map.empty, temp_types = Map.empty\<rparr>,
      [Error_text (cast_error ''age'' Number
         (Exception (''could not convert string to float: '' @ [CHR 39] @ ''thirty'' @ [CHR 39])))],
      Completed)"
proof -
  let ?row = "[''who'' \<mapsto> RStr ''Ann'', ''age'' \<mapsto> RStr ''thirty'', ''joined'' \<mapsto> RStr ''soon'']"
  let ?s = "\<lparr>schema = demo_schema, rows = [[(''who'', VStr ''Bob''), (''age'', VNone), (''joined'', VNone)]],
      num_vars = 3, temp_names = Map.empty, temp_types = Map.empty\<rparr>"
  let ?e = "Exception (''could not convert string to float: '' @ [CHR 39] @ ''thirty'' @ [CHR 39])"
  have 1: "schema ?s = [\<lparr>name = ''who'', ftype = Short_text\<rparr>] @ \<lparr>name = ''age'', ftype = Number\<rparr>
      # [\<lparr>name = ''joined'', ftype = Date\<rparr>]"
    by (simp add: demo_schema_def)
  have 2: "\<forall>g\<in>set [\<lparr>name = ''who'', ftype = Short_text\<rparr>].
      \<exists>v. cast_field demo_lib (ftype g) (?row (name g)) = Inr v"
    by (simp add: cast_field_def blank_to_None_def strip_def isspace_def cast_value_def)
  have 3: "cast_field demo_lib (ftype \<lparr>name = ''age'', ftype = Number\<rparr>)
      (?row (name \<lparr>name = ''age'', ftype = Number\<rparr>)) = Inl ?e"
    by (simp add: cast_field_def blank_to_None_def strip_def isspace_def cast_value_def
          py_float_def demo_lib_def demo_float_of_def is_digit_def)
  have 4: "is_Exception ?e" by simp
  note h = first_failing_field_rejects_row [OF 1 2 3 4, THEN conjunct2, THEN conjunct2,
      THEN conjunct2, THEN conjunct1]
  have "name \<lparr>name = ''age'', ftype = Number\<rparr> = ''age''"
       "ftype \<lparr>name = ''age'', ftype = Number\<rparr> = Number" by simp_all
  with h show ?thesis by (simp only:)
qed

subsection \<open>C8: the keys of a row are the names of the schema\<close>

text \<open>Each handler keeps the rows keyed by the names of the schema.\<close>

lemma validate_and_cast_keys:
  "validate_and_cast lib sch row_dict = Returns (Inr out) \<Longrightarrow> fst ` set out = name ` set sch"
  using validate_loop_keys [of lib sch row_dict "[]" out] by (simp add: validate_and_cast_def)

lemma save_schema_cases:
  "fst (save_schema s) = s \<or> rows (fst (save_schema s)) = []"
  by (simp add: save_schema_def split: sum.splits)

lemma upload_csv_schema: "schema (fst (upload_csv lib uploaded s)) = schema s"
  by (auto simp: upload_csv_def Let_def split: sum.splits prod.splits option.splits)

lemma upload_csv_rows:
  assumes "r \<in> set (rows (fst (upload_csv lib uploaded s)))"
  shows "r \<in> set (rows s) \<or> (\<exists>d. validate_and_cast lib (schema s) d = Returns (Inr r))"
proof (cases "read_csv lib uploaded")
  case (Inl e)
  with assms show ?thesis by (simp add: upload_csv_def split: if_splits)
next
  case (Inr df)
  show ?thesis
  proof (cases "filter (\<lambda>c. c \<notin> set (columns df)) (map name (schema s)) = []")
    case False
    with Inr assms show ?thesis by (simp add: upload_csv_def Let_def)
  next
    case True
    obtain rws rest where il:
      "import_loop lib (schema s) (frame_dicts (frame_select df (map name (schema s)))) (rows s) [] 0
         = (rws, rest)" by (cases "import_loop lib (schema s) (frame_dicts (frame_select df (map name (schema s)))) (rows s) [] 0")
    with Inr True assms have "r \<in> set rws"
      by (auto simp: upload_csv_def Let_def split: prod.splits option.splits if_splits)
    with import_loop_rows [OF il] show ?thesis by blast
  qed
qed

lemma submit_row_schema: "schema (fst (submit_row lib new_row s)) = schema s"
  by (simp add: submit_row_def split: result.splits sum.splits)

lemma submit_row_rows:
  "r \<in> set (rows (fst (submit_row lib new_row s))) \<Longrightarrow>
   r \<in> set (rows s) \<or> validate_and_cast lib (schema s) new_row = Returns (Inr r)"
  by (auto simp: submit_row_def split: result.splits sum.splits)

lemma rows_match_schemaI:
  assumes "rows_match_schema s" and "schema s' = schema s"
    and "\<And>r. r \<in> set (rows s') \<Longrightarrow>
          r \<in> set (rows s) \<or> (\<exists>d. validate_and_cast lib (schema s) d = Returns (Inr r))"
  shows "rows_match_schema s'"
  unfolding rows_match_schema_def
proof
  fix r assume "r \<in> set (rows s')"
  from assms(3) [OF this] show "fst ` set r = name ` set (schema s')"
  proof
    assume "r \<in> set (rows s)"
    with assms(1,2) show ?thesis by (simp add: rows_match_schema_def)
  next
    assume "\<exists>d. validate_and_cast lib (schema s) d = Returns (Inr r)"
    then show ?thesis using validate_and_cast_keys assms(2) by metis
  qed
qed

lemma handle_preserves:
  assumes "rows_match_schema s"
  shows "rows_match_schema (fst (handle lib ev s))"
proof (cases ev)
  case (Set_num_vars n)
  with assms show ?thesis by (simp add: set_num_vars_def rows_match_schema_def)
next
  case Create_fields
  with assms show ?thesis by (simp add: create_fields_def rows_match_schema_def)
next
  case (Edit_field i nm tp)
  with assms show ?thesis by (simp add: edit_field_def rows_match_schema_def)
next
  case Save_schema
  from save_schema_cases [of s] show ?thesis
  proof
    assume "fst (save_schema s) = s"
    with Save_schema assms show ?thesis by simp
  next
    assume "rows (fst (save_schema s)) = []"
    with Save_schema show ?thesis by (simp add: rows_match_schema_def)
  qed
next
  case Reset_schema
  with assms show ?thesis by (simp add: reset_schema_def rows_match_schema_def)
next
  case Clear_data
  with assms show ?thesis by (simp add: clear_data_def rows_match_schema_def)
next
  case (Submit_row new_row)
  show ?thesis
  proof (cases "schema s = []")
    case True
    with Submit_row assms show ?thesis by simp
  next
    case False
    with Submit_row have h: "handle lib ev s = submit_row lib new_row s" by simp
    show ?thesis unfolding h
    proof (rule rows_match_schemaI [OF assms submit_row_schema])
      fix r assume "r \<in> set (rows (fst (submit_row lib new_row s)))"
      from submit_row_rows [OF this]
      show "r \<in> set (rows s) \<or> (\<exists>d. validate_and_cast lib (schema s) d = Returns (Inr r))"
        by blast
    qed
  qed
next
  case (Upload_csv uploaded)
  show ?thesis
  proof (cases "schema s = []")
    case True
    with Upload_csv assms show ?thesis by simp
  next
    case False
    with Upload_csv have h: "handle lib ev s = upload_csv lib uploaded s" by simp
    show ?thesis unfolding h
      by (rule rows_match_schemaI [OF assms upload_csv_schema]) (rule upload_csv_rows)
  qed
qed

lemma run_preserves: "rows_match_schema s \<Longrightarrow> rows_match_schema (run lib evs s)"
  by (induction evs arbitrary: s) (auto intro: handle_preserves)

lemma init_rows_match: "rows_match_schema init_state"
  by (simp add: rows_match_schema_def init_state_def)

text \<open>
  C8. A row that \<^verbatim>\<open>validate_and_cast\<close> returns has exactly the names of the schema
  as its keys, whatever keys the raw row has; a name that the raw row lacks is mapped to
  null; the keys come in the order of the schema when its names are distinct. Hence, after
  any sequence of interactions with a fresh session, every stored row has exactly the names
  of the current schema as its keys.
\<close>

theorem stored_rows_have_schema_keys:
  "(validate_and_cast lib sch row_dict = Returns (Inr out) \<longrightarrow>
      fst ` set out = name ` set sch \<and>
      (\<forall>n\<in>name ` set sch. row_dict n = None \<longrightarrow> map_of out n = Some VNone) \<and>
      (distinct (map name sch) \<longrightarrow> map fst out = map name sch)) \<and>
   (\<forall>r\<in>set (rows (run lib evs init_state)).
      fst ` set r = name ` set (schema (run lib evs init_state)))"
proof -
  have "rows_match_schema (run lib evs init_state)"
    using run_preserves init_rows_match by blast
  moreover have "map fst out = map name sch"
    if "validate_and_cast lib sch row_dict = Returns (Inr out)" "distinct (map name sch)"
    using validate_loop_distinct_keys [of lib sch row_dict "[]" out] that
    by (simp add: validate_and_cast_def)
  ultimately show ?thesis
    using validate_and_cast_keys [of lib sch row_dict out]
      validate_loop_missing_key [of lib sch row_dict "[]" out]
    by (auto simp: rows_match_schema_def validate_and_cast_def)
qed

text \<open>
  The row entered in the example session has a key that is not in the schema and lacks the
  date: the stored row has the two names of the schema, the date being null.
\<close>

theorem stored_rows_have_schema_keys_witness:
  "validate_and_cast demo_lib
     [\<lparr>name = ''age'', ftype = Number\<rparr>, \<lparr>name = ''joined'', ftype = Date\<rparr>]
     [''age'' \<mapsto> RStr ''30'', ''extra'' \<mapsto> RStr ''x'']
     = Returns (Inr [(''age'', VFloat (Finite 30)), (''joined'', VNone)]) \<and>
   map fst [(''age'', VFloat (Finite 30)), (''joined'', VNone)]
     = map name [\<lparr>name = ''age'', ftype = Number\<rparr>, \<lparr>name = ''joined'', ftype = Date\<rparr>] \<and>
   map_of [(''age'', VFloat (Finite 30)), (''joined'', VNone)] ''joined'' = Some VNone \<and>
   schema (run demo_lib demo_events init_state)
     = [\<lparr>name = ''age'', ftype = Number\<rparr>, \<lparr>name = ''joined'', ftype = Date\<rparr>] \<and>
   rows (run demo_lib demo_events init_state)
     = [[(''age'', VFloat (Finite 30)), (''joined'', VNone)]] \<and>
   list_all (\<lambda>r. fst ` set r = name ` set (schema (run demo_lib demo_events init_state)))
     (rows (run demo_lib demo_events init_state))"
proof -
  let ?sch = "[\<lparr>name = ''age'', ftype = Number\<rparr>, \<lparr>name = ''joined'', ftype = Date\<rparr>]"
  let ?row = "[''age'' \<mapsto> RStr ''30'', ''extra'' \<mapsto> RStr ''x'']"
  let ?out = "[(''age'', VFloat (Finite 30)), (''joined'', VNone)]"
  have v: "validate_and_cast demo_lib ?sch ?row = Returns (Inr ?out)"
    by (simp add: validate_and_cast_def cast_field_def blank_to_None_def strip_def isspace_def
          cast_value_def py_float_def demo_lib_def demo_float_of_def is_digit_def
          nat_of_digits_def)
  have s: "schema (run demo_lib demo_events init_state) = ?sch" by code_simp
  have r: "rows (run demo_lib demo_events init_state) = [?out]" by code_simp
  note t = stored_rows_have_schema_keys [of demo_lib ?sch ?row ?out demo_events]
  from t v have "map fst ?out = map name ?sch" by simp
  moreover from t v have "map_of ?out ''joined'' = Some VNone" by simp
  moreover from t
  have "list_all (\<lambda>r. fst ` set r = name ` set (schema (run demo_lib demo_events init_state)))
     (rows (run demo_lib demo_events init_state))"
    unfolding list_all_iff by (rule conjunct2)
  ultimately show ?thesis using v s r by blast
qed

subsection \<open>C5: saving the schema fails at the first violation\<close>

text \<open>The loop reaches index \<open>i\<close> when no name before it is empty or repeated.\<close>

lemma upt_split: "i < n \<Longrightarrow> [0..<n] = [0..<i] @ i # [Suc i..<n]"
  by (metis upt_conv_Cons upt_add_eq_append le_add_diff_inverse less_imp_le zero_le)

lemma no_violation_prefix:
  assumes "\<forall>j<i. f j \<noteq> [] \<and> (\<forall>k<j. f k \<noteq> f j)"
  shows "\<forall>j\<in>set [0..<i]. f j \<noteq> []" and "distinct (map f [0..<i])"
proof -
  show "\<forall>j\<in>set [0..<i]. f j \<noteq> []" using assms by simp
  have "inj_on f {0..<i}"
  proof (rule inj_onI)
    fix x y assume "x \<in> {0..<i}" "y \<in> {0..<i}" "f x = f y"
    with assms show "x = y" by (cases x y rule: linorder_cases) (auto, metis)
  qed
  then show "distinct (map f [0..<i])" by (simp add: distinct_map)
qed

lemma save_loop_upto:
  assumes "i \<le> n" and "\<forall>j<i. draft_name names j \<noteq> [] \<and> (\<forall>k<j. draft_name names k \<noteq> draft_name names j)"
  shows "save_loop names types ([0..<i] @ rest) {} [] =
         save_loop names types rest (draft_name names ` {0..<i}) (map (draft_field names types) [0..<i])"
  using save_loop_prefix [OF no_violation_prefix [OF assms(2)], of "{}" types rest "[]"]
  by simp

text \<open>
  C5. Let the draft names before index \<open>i\<close> be non-empty after stripping and pairwise
  different, so that \<open>i\<close> is where the scan meets its first violation. When the name at
  \<open>i\<close> strips to the empty string, the error is \<^verbatim>\<open>Variable name #\<close>\<open>i + 1\<close>\<^verbatim>\<open> is empty.\<close>
  (the position is counted from one); when it is not empty and equals an earlier name, the
  error is \<^verbatim>\<open>Duplicate variable name: '<name>'.\<close>. In both cases the handler ends
  with the session state it started from: the schema and the rows are unchanged.
\<close>

theorem save_schema_fails_fast:
  assumes "i < num_vars s"
    and "\<forall>j<i. draft_name (temp_names s) j \<noteq> [] \<and>
           (\<forall>k<j. draft_name (temp_names s) k \<noteq> draft_name (temp_names s) j)"
  shows "(draft_name (temp_names s) i = [] \<longrightarrow>
            save_schema s
              = (s, [Error_text (''Variable name #'' @ str_nat (i + 1) @ '' is empty.'')],
                 Completed)) \<and>
         (draft_name (temp_names s) i \<noteq> [] \<and>
          (\<exists>k<i. draft_name (temp_names s) k = draft_name (temp_names s) i) \<longrightarrow>
            save_schema s
              = (s, [Error_text (''Duplicate variable name: '' @ [CHR 39]
                       @ draft_name (temp_names s) i @ [CHR 39] @ ''.'')],
                 Completed)) \<and>
         (draft_name (temp_names s) i = [] \<or>
          (\<exists>k<i. draft_name (temp_names s) k = draft_name (temp_names s) i) \<longrightarrow>
            handle lib Save_schema s = save_schema s \<and>
            schema (fst (save_schema s)) = schema s \<and> rows (fst (save_schema s)) = rows s)"
proof -
  let ?dn = "draft_name (temp_names s)"
  have loop: "save_loop (temp_names s) (temp_types s) [0..<num_vars s] {} [] =
      save_loop (temp_names s) (temp_types s) (i # [Suc i..<num_vars s]) (?dn ` {0..<i})
        (map (draft_field (temp_names s) (temp_types s)) [0..<i])"
    using save_loop_upto [OF less_imp_le [OF assms(1)] assms(2)] upt_split [OF assms(1)]
    by simp
  have seen: "?dn i \<in> ?dn ` {0..<i} \<longleftrightarrow> (\<exists>k<i. ?dn k = ?dn i)"
  proof
    assume "?dn i \<in> ?dn ` {0..<i}"
    then show "\<exists>k<i. ?dn k = ?dn i" by auto
  next
    assume "\<exists>k<i. ?dn k = ?dn i"
    then obtain k where "k < i" "?dn i = ?dn k" by auto
    then show "?dn i \<in> ?dn ` {0..<i}" by (intro image_eqI [of _ _ k]) auto
  qed
  have empty: "save_schema s
      = (s, [Error_text (''Variable name #'' @ str_nat (i + 1) @ '' is empty.'')], Completed)"
    if "?dn i = []"
    using that by (simp add: save_schema_def loop)
  have dup: "save_schema s
      = (s, [Error_text (''Duplicate variable name: '' @ [CHR 39] @ ?dn i @ [CHR 39] @ ''.'')],
         Completed)"
    if "?dn i \<noteq> []" "\<exists>k<i. ?dn k = ?dn i"
    using that seen by (simp add: save_schema_def loop)
  from empty dup show ?thesis by (cases "?dn i = []") auto
qed

text \<open>
  With the second of three names blank, the error names position 2; with the third name
  equal to the first once stripped, the error names that name. The state is returned as it
  was, its schema and its row included.
\<close>

theorem save_schema_fails_fast_witness:
  "save_schema \<lparr>schema = demo_schema, rows = demo_rows, num_vars = 3,
       temp_names = [0 \<mapsto> ''who'', 1 \<mapsto> ''  '', 2 \<mapsto> ''who''], temp_types = Map.empty\<rparr>
     = (\<lparr>schema = demo_schema, rows = demo_rows, num_vars = 3,
         temp_names = [0 \<mapsto> ''who'', 1 \<mapsto> ''  '', 2 \<mapsto> ''who''], temp_types = Map.empty\<rparr>,
        [Error_text ''Variable name #2 is empty.''], Completed) \<and>
   save_schema \<lparr>schema = demo_schema, rows = demo_rows, num_vars = 3,
       temp_names = [0 \<mapsto> ''who'', 1 \<mapsto> ''age'', 2 \<mapsto> '' who ''], temp_types = Map.empty\<rparr>
     = (\<lparr>schema = demo_schema, rows = demo_rows, num_vars = 3,
         temp_names = [0 \<mapsto> ''who'', 1 \<mapsto> ''age'', 2 \<mapsto> '' who ''], temp_types = Map.empty\<rparr>,
        [Error_text (''Duplicate variable name: '' @ [CHR 39] @ ''who'' @ [CHR 39] @ ''.'')],
        Completed)"
proof -
  let ?s1 = "\<lparr>schema = demo_schema, rows = demo_rows, num_vars = 3,
       temp_names = [0 \<mapsto> ''who'', 1 \<mapsto> ''  '', 2 \<mapsto> ''who''], temp_types = Map.empty\<rparr>"
  let ?s2 = "\<lparr>schema = demo_schema, rows = demo_rows, num_vars = 3,
       temp_names = [0 \<mapsto> ''who'', 1 \<mapsto> ''age'', 2 \<mapsto> '' who ''], temp_types = Map.empty\<rparr>"
  have a1: "1 < num_vars ?s1" by simp
  have b1: "\<forall>j<1. draft_name (temp_names ?s1) j \<noteq> [] \<and>
           (\<forall>k<j. draft_name (temp_names ?s1) k \<noteq> draft_name (temp_names ?s1) j)"
    by (simp add: draft_name_def strip_def isspace_def)
  have c1: "draft_name (temp_names ?s1) 1 = []"
    by (simp add: draft_name_def strip_def isspace_def)
  have n2: "str_nat (1 + 1) = ''2''" by (simp add: str_nat.simps)
  have a2: "2 < num_vars ?s2" by simp
  have b2: "\<forall>j<2. draft_name (temp_names ?s2) j \<noteq> [] \<and>
           (\<forall>k<j. draft_name (temp_names ?s2) k \<noteq> draft_name (temp_names ?s2) j)"
    by (auto simp: less_Suc_eq numeral_2_eq_2 draft_name_def strip_def isspace_def)
  have c2: "draft_name (temp_names ?s2) 2 = ''who''"
    by (simp add: draft_name_def strip_def isspace_def)
  have d2: "\<exists>k<2. draft_name (temp_names ?s2) k = draft_name (temp_names ?s2) 2"
    by (rule exI [of _ 0]) (simp add: draft_name_def strip_def isspace_def)
  from save_schema_fails_fast [OF a1 b1, of demo_lib] c1 n2
  have 1: "save_schema ?s1 = (?s1, [Error_text ''Variable name #2 is empty.''], Completed)"
    by simp
  from save_schema_fails_fast [OF a2 b2, of demo_lib] c2 d2
  have 2: "save_schema ?s2
     = (?s2, [Error_text (''Duplicate variable name: '' @ [CHR 39] @ ''who'' @ [CHR 39] @ ''.'')],
        Completed)"
    by simp
  from 1 2 show ?thesis by (rule conjI)
qed

subsection \<open>C6: a successful commit empties the store\<close>

lemma save_loop_success:
  assumes "\<forall>j<n. draft_name names j \<noteq> [] \<and> (\<forall>k<j. draft_name names k \<noteq> draft_name names j)"
  shows "save_loop names types [0..<n] {} [] = Inr (map (draft_field names types) [0..<n])"
  using save_loop_upto [OF le_refl assms, of types "[]"] by simp

lemma save_schema_success_rows:
  "Success_schema_saved \<in> set (fst (snd (save_schema s))) \<Longrightarrow>
   rows (fst (save_schema s)) = [] \<and> temp_names (fst (save_schema s)) = Map.empty \<and>
   temp_types (fst (save_schema s)) = Map.empty"
  by (auto simp: save_schema_def split: sum.splits)

lemma handle_schema_change:
  "schema (fst (handle lib ev s)) \<noteq> schema s \<Longrightarrow> rows (fst (handle lib ev s)) = []"
proof (cases ev)
  case Save_schema
  assume "schema (fst (handle lib ev s)) \<noteq> schema s"
  with Save_schema show ?thesis by (auto simp: save_schema_def split: sum.splits)
next
  case (Submit_row new_row)
  assume "schema (fst (handle lib ev s)) \<noteq> schema s"
  with Submit_row show ?thesis by (simp add: submit_row_schema split: if_splits)
next
  case (Upload_csv uploaded)
  assume "schema (fst (handle lib ev s)) \<noteq> schema s"
  with Upload_csv show ?thesis by (simp add: upload_csv_schema split: if_splits)
qed (auto simp: set_num_vars_def create_fields_def edit_field_def reset_schema_def clear_data_def)

text \<open>
  C6. When no draft name is empty or repeated, \<^verbatim>\<open>Save schema\<close> replaces the schema by
  the draft and sets the rows to the empty list in the same step, whatever the schema and
  the rows were before; whenever the handler reports success the rows are empty; and no
  interaction at all leaves a row behind in a state whose schema differs from the one before.
\<close>

theorem successful_commit_empties_store:
  "((\<forall>j<num_vars s. draft_name (temp_names s) j \<noteq> [] \<and>
        (\<forall>k<j. draft_name (temp_names s) k \<noteq> draft_name (temp_names s) j)) \<longrightarrow>
      save_schema s
        = (s\<lparr>schema := map (draft_field (temp_names s) (temp_types s)) [0..<num_vars s],
             rows := [], temp_names := Map.empty, temp_types := Map.empty\<rparr>,
           [Success_schema_saved], Rerun)) \<and>
   (Success_schema_saved \<in> set (fst (snd (save_schema s))) \<longrightarrow>
      rows (fst (save_schema s)) = []) \<and>
   handle lib Save_schema s = save_schema s \<and>
   (schema (fst (handle lib ev s)) \<noteq> schema s \<longrightarrow> rows (fst (handle lib ev s)) = [])"
  using save_loop_success [of "num_vars s" "temp_names s" "temp_types s"]
    save_schema_success_rows [of s] handle_schema_change [of lib ev s]
  by (auto simp: save_schema_def)

text \<open>
  Saving a draft that equals the schema already in place, while the store has a row,
  leaves the schema as it was and the store empty.
\<close>

theorem successful_commit_empties_store_witness:
  "save_schema \<lparr>schema = demo_schema, rows = demo_rows, num_vars = 3,
       temp_names = [0 \<mapsto> ''who'', 1 \<mapsto> ''age'', 2 \<mapsto> ''joined''],
       temp_types = [0 \<mapsto> Short_text, 1 \<mapsto> Number, 2 \<mapsto> Date]\<rparr>
     = (\<lparr>schema = demo_schema, rows = [], num_vars = 3,
         temp_names = Map.empty, temp_types = Map.empty\<rparr>,
        [Success_schema_saved], Rerun)"
proof -
  let ?s = "\<lparr>schema = demo_schema, rows = demo_rows, num_vars = 3,
       temp_names = [0 \<mapsto> ''who'', 1 \<mapsto> ''age'', 2 \<mapsto> ''joined''],
       temp_types = [0 \<mapsto> Short_text, 1 \<mapsto> Number, 2 \<mapsto> Date]\<rparr>"
  have ok: "\<forall>j<num_vars ?s. draft_name (temp_names ?s) j \<noteq> [] \<and>
        (\<forall>k<j. draft_name (temp_names ?s) k \<noteq> draft_name (temp_names ?s) j)"
    by (auto simp: less_Suc_eq numeral_3_eq_3 draft_name_def strip_def isspace_def)
  have sch: "map (draft_field (temp_names ?s) (temp_types ?s)) [0..<num_vars ?s] = demo_schema"
    by (simp add: upt_rec draft_field_def draft_name_def draft_type_def strip_def isspace_def
          demo_schema_def)
  from successful_commit_empties_store [of ?s demo_lib Save_schema] ok
  have "save_schema ?s
        = (?s\<lparr>schema := map (draft_field (temp_names ?s) (temp_types ?s)) [0..<num_vars ?s],
             rows := [], temp_names := Map.empty, temp_types := Map.empty\<rparr>,
           [Success_schema_saved], Rerun)" by blast
  then show ?thesis unfolding sch by simp
qed

subsection \<open>The upload handler\<close>

text \<open>
  \<^verbatim>\<open>validate_and_cast\<close> reads the row at the names of the schema only, so the verdict
  on a row of the selected frame is the verdict on the row of the frame as it was read.
\<close>

lemma validate_loop_cong:
  "(\<And>n. n \<in> name ` set sch \<Longrightarrow> d n = d' n) \<Longrightarrow>
   validate_loop lib sch d out = validate_loop lib sch d' out"
  by (induction sch arbitrary: out) (auto split: sum.splits)

lemma validate_and_cast_cong:
  "(\<And>n. n \<in> name ` set sch \<Longrightarrow> d n = d' n) \<Longrightarrow>
   validate_and_cast lib sch d = validate_and_cast lib sch d'"
  unfolding validate_and_cast_def by (rule validate_loop_cong)

lemma map_of_zip_map_self: "c \<in> set cols \<Longrightarrow> map_of (zip cols (map f cols)) c = Some (f c)"
  by (induction cols) auto

lemma to_dict_defined:
  "length r = length cols \<Longrightarrow> c \<in> set cols \<Longrightarrow> \<exists>v. to_dict cols r c = Some v"
proof -
  assume a: "length r = length cols" "c \<in> set cols"
  then have "map fst (zip cols r) = cols" by simp
  then have "fst ` set (zip cols r) = set cols" by (metis set_map)
  with a(2) have "map_of (zip cols r) c \<noteq> None" by (simp add: map_of_eq_None_iff)
  then show ?thesis by (auto simp: to_dict_def)
qed

lemma selected_dict:
  assumes "length r = length cols" and "set names \<subseteq> set cols" and "n \<in> set names"
  shows "to_dict names (map (cell_at cols r) names) n = to_dict cols r n"
proof -
  from assms obtain v where v: "to_dict cols r n = Some v" using to_dict_defined by blast
  then have "cell_at cols r n = v" by (simp add: cell_at_def to_dict_def)
  with v assms(3) show ?thesis by (simp add: to_dict_def map_of_zip_map_self)
qed

lemma verdicts_of_selection:
  assumes "rectangular df" and "set (map name sch) \<subseteq> set (columns df)"
  shows "map (validate_and_cast lib sch) (frame_dicts (frame_select df (map name sch)))
       = map (\<lambda>r. validate_and_cast lib sch (to_dict (columns df) r)) (data df)"
proof -
  have "validate_and_cast lib sch (to_dict (map name sch) (map (cell_at (columns df) r) (map name sch)))
      = validate_and_cast lib sch (to_dict (columns df) r)" if "r \<in> set (data df)" for r
  proof (rule validate_and_cast_cong)
    fix n assume "n \<in> name ` set sch"
    moreover from that assms(1) have "length r = length (columns df)"
      by (simp add: rectangular_def list_all_iff)
    ultimately show "to_dict (map name sch) (map (cell_at (columns df) r) (map name sch)) n
        = to_dict (columns df) r n"
      using assms(2) by (intro selected_dict) auto
  qed
  then show ?thesis by (simp add: frame_dicts_def frame_select_def)
qed

lemma validate_and_cast_returns:
  "casts_raise_Exception lib \<Longrightarrow> \<exists>v. validate_and_cast lib sch d = Returns v"
  unfolding validate_and_cast_def by (rule validate_loop_returns)

lemma upload_csv_no_missing:
  assumes "casts_raise_Exception lib" and "read_csv lib uploaded = Inr df"
    and "set (map name (schema s)) \<subseteq> set (columns df)"
  shows "upload_csv lib uploaded s =
     (let vs = map (validate_and_cast lib (schema s))
                 (frame_dicts (frame_select df (map name (schema s))))
      in (s\<lparr>rows := rows s @ accepted vs\<rparr>,
          (if refused vs \<noteq> [] then [Warning_failed_rows (take 5 (refused vs))] else [])
            @ [Success_imported (length (accepted vs))],
          Rerun))"
proof -
  have m: "filter (\<lambda>c. c \<notin> set (columns df)) (map name (schema s)) = []"
    using assms(3) by (auto simp: filter_empty_conv)
  have il: "import_loop lib (schema s) dicts (rows s) [] 0 =
     (rows s @ accepted (map (validate_and_cast lib (schema s)) dicts),
      refused (map (validate_and_cast lib (schema s)) dicts),
      length (accepted (map (validate_and_cast lib (schema s)) dicts)), None)" for dicts
    using import_loop_all [of dicts lib "schema s" "rows s" "[]" 0]
      validate_and_cast_returns [OF assms(1)] by simp
  show ?thesis
    unfolding upload_csv_def Let_def assms(2) sum.case m il
    by (simp only: prod.case option.case simp_thms if_False)
qed

text \<open>The small library raises instances of \<^verbatim>\<open>Exception\<close> only.\<close>

lemma demo_casts: "casts_raise_Exception demo_lib"
  by (auto simp: casts_raise_Exception_def demo_lib_def demo_float_of_def
        demo_to_datetime_date_def Let_def split: raw.splits if_splits)

lemma demo_reads: "read_csv_raises_Exception demo_lib"
  by (auto simp: read_csv_raises_Exception_def demo_lib_def demo_read_csv_def split: list.splits)

lemma demo_file_read: "read_csv demo_lib demo_file = Inr demo_frame"
  by code_simp

subsection \<open>C2: failing rows do not stop the import\<close>

text \<open>
  C2. Let the library raise instances of \<^verbatim>\<open>Exception\<close> only, and let the frame
  read from the uploaded file, a rectangular table, have all the names of the schema among
  its columns. Then every row of the file gets a verdict, in file order; the rows accepted are
  appended to the store in that order and the rows refused are left out, each row being one
  or the other; and the handler shows the first five error messages at most, whatever the
  number of rows refused, and the number of rows added.
\<close>

theorem csv_import_continues_after_failures:
  assumes "casts_raise_Exception lib" and "read_csv lib uploaded = Inr df"
    and "rectangular df" and "set (map name (schema s)) \<subseteq> set (columns df)"
  shows "(let vs = map (\<lambda>r. validate_and_cast lib (schema s) (to_dict (columns df) r)) (data df)
          in upload_csv lib uploaded s
               = (s\<lparr>rows := rows s @ accepted vs\<rparr>,
                  (if refused vs \<noteq> [] then [Warning_failed_rows (take 5 (refused vs))] else [])
                    @ [Success_imported (length (accepted vs))],
                  Rerun) \<and>
             length (accepted vs) + length (refused vs) = length (data df) \<and>
             length (take 5 (refused vs)) \<le> 5)"
proof -
  let ?vs = "map (\<lambda>r. validate_and_cast lib (schema s) (to_dict (columns df) r)) (data df)"
  have "\<forall>v\<in>set ?vs. \<exists>r. v = Returns r"
    using validate_and_cast_returns [OF assms(1)] by auto
  then have "length (accepted ?vs) + length (refused ?vs) = length ?vs"
    by (rule accepted_refused_length)
  then have len: "length (accepted ?vs) + length (refused ?vs) = length (data df)" by simp
  have "upload_csv lib uploaded s
      = (s\<lparr>rows := rows s @ accepted ?vs\<rparr>,
         (if refused ?vs \<noteq> [] then [Warning_failed_rows (take 5 (refused ?vs))] else [])
           @ [Success_imported (length (accepted ?vs))],
         Rerun)"
    using upload_csv_no_missing [OF assms(1,2,4)]
    unfolding verdicts_of_selection [OF assms(3,4)] Let_def .
  with len show ?thesis unfolding Let_def by simp
qed

text \<open>
  A file of eight rows, six of them with a word for the age: the two other rows are
  appended after the row in the store, five of the six messages are shown, and two rows are
  reported as imported.
\<close>

theorem csv_import_continues_after_failures_witness:
  "upload_csv demo_lib demo_file demo_state
     = (demo_state\<lparr>rows := demo_rows @
           [[(''who'', VStr ''B''), (''age'', VFloat NaN), (''joined'', VDate (Ymd 2023 1 5))],
            [(''who'', VStr ''H''), (''age'', VFloat NaN), (''joined'', VDate (Ymd 2024 2 29))]]\<rparr>,
        [Warning_failed_rows
           [demo_age_error ''x1'', demo_age_error ''x2'', demo_age_error ''x3'',
            demo_age_error ''x4'', demo_age_error ''x5''],
         Success_imported 2],
        Rerun)"
proof -
  have rect: "rectangular demo_frame" by (simp add: rectangular_def demo_frame_def)
  have sub: "set (map name (schema demo_state)) \<subseteq> set (columns demo_frame)"
    by (simp add: demo_state_def demo_schema_def demo_frame_def)
  have vs: "map (\<lambda>r. validate_and_cast demo_lib (schema demo_state) (to_dict (columns demo_frame) r))
              (data demo_frame)
    = [Returns (Inl (demo_age_error ''x1'')),
       Returns (Inr [(''who'', VStr ''B''), (''age'', VFloat NaN), (''joined'', VDate (Ymd 2023 1 5))]),
       Returns (Inl (demo_age_error ''x2'')), Returns (Inl (demo_age_error ''x3'')),
       Returns (Inl (demo_age_error ''x4'')), Returns (Inl (demo_age_error ''x5'')),
       Returns (Inl (demo_age_error ''x6'')),
       Returns (Inr [(''who'', VStr ''H''), (''age'', VFloat NaN), (''joined'', VDate (Ymd 2024 2 29))])]"
    by code_simp
  have r: "rows demo_state = demo_rows" by (simp add: demo_state_def)
  from csv_import_continues_after_failures [OF demo_casts demo_file_read rect sub]
  show ?thesis unfolding Let_def vs r by simp
qed

subsection \<open>C3: a missing column aborts the import\<close>

lemma upload_csv_missing:
  assumes "read_csv lib uploaded = Inr df" and "\<not> set (map name (schema s)) \<subseteq> set (columns df)"
  shows "upload_csv lib uploaded s
     = (s, [Error_missing_columns (filter (\<lambda>c. c \<notin> set (columns df)) (map name (schema s)))],
        Completed)"
proof -
  have m: "filter (\<lambda>c. c \<notin> set (columns df)) (map name (schema s)) \<noteq> []"
    using assms(2) by (auto simp: filter_empty_conv)
  show ?thesis
    unfolding upload_csv_def Let_def assms(1) sum.case using m by (simp only: if_True simp_thms)
qed

lemma upload_csv_selection:
  assumes "read_csv lib uploaded = Inr df" and "read_csv lib uploaded' = Inr df'"
    and "set (map name (schema s)) \<subseteq> set (columns df)"
    and "set (map name (schema s)) \<subseteq> set (columns df')"
    and "frame_select df' (map name (schema s)) = frame_select df (map name (schema s))"
  shows "upload_csv lib uploaded' s = upload_csv lib uploaded s"
proof -
  have m: "filter (\<lambda>c. c \<notin> set (columns df)) (map name (schema s)) = []"
     "filter (\<lambda>c. c \<notin> set (columns df')) (map name (schema s)) = []"
    using assms(3,4) by (auto simp: filter_empty_conv)
  show ?thesis
    unfolding upload_csv_def Let_def assms(1,2) sum.case m assms(5) ..
qed

lemma upload_csv_no_error:
  assumes "read_csv lib uploaded = Inr df" and "set (map name (schema s)) \<subseteq> set (columns df)"
  shows "list_all (\<lambda>m. \<not> is_error m) (fst (snd (upload_csv lib uploaded s)))"
proof -
  have m: "filter (\<lambda>c. c \<notin> set (columns df)) (map name (schema s)) = []"
    using assms(2) by (auto simp: filter_empty_conv)
  obtain rws bad added raised where il:
    "import_loop lib (schema s) (frame_dicts (frame_select df (map name (schema s)))) (rows s) [] 0
       = (rws, bad, added, raised)" by (metis prod_cases4)
  show ?thesis
  proof (cases raised)
    case None
    show ?thesis
      unfolding upload_csv_def Let_def assms(1) sum.case m il None
      by simp
  next
    case (Some e)
    with il have "\<not> is_Exception e" using import_loop_raised by blast
    then show ?thesis
      unfolding upload_csv_def Let_def assms(1) sum.case m il Some
      by simp
  qed
qed

text \<open>
  C3. When a name of the schema is not among the columns of the frame read, the handler
  shows the error with exactly the names that are missing, in schema order, and ends with
  the session state it started from, so no row is added, whatever the rows of the file hold.
  When no name is missing, no error is shown, and the outcome is the same for every other
  file whose frame has the same cells in the columns of the schema: the other columns are
  ignored.
\<close>

theorem missing_column_aborts_import:
  assumes "read_csv lib uploaded = Inr df"
  shows "(\<not> set (map name (schema s)) \<subseteq> set (columns df) \<longrightarrow>
            upload_csv lib uploaded s
              = (s, [Error_missing_columns
                       (filter (\<lambda>c. c \<notin> set (columns df)) (map name (schema s)))],
                 Completed)) \<and>
         (set (map name (schema s)) \<subseteq> set (columns df) \<longrightarrow>
            list_all (\<lambda>m. \<not> is_error m) (fst (snd (upload_csv lib uploaded s))) \<and>
            (\<forall>uploaded' df'.
               read_csv lib uploaded' = Inr df' \<and>
               set (map name (schema s)) \<subseteq> set (columns df') \<and>
               frame_select df' (map name (schema s)) = frame_select df (map name (schema s))
               \<longrightarrow> upload_csv lib uploaded' s = upload_csv lib uploaded s))"
  using upload_csv_missing [OF assms] upload_csv_no_error [OF assms]
    upload_csv_selection [OF assms]
  by blast

text \<open>
  A file without the column \<^verbatim>\<open>joined\<close> is refused with that name and leaves the
  state as it was; a file with a further column, in another order, is imported as the file
  without it.
\<close>

theorem missing_column_aborts_import_witness:
  "upload_csv demo_lib demo_file_short demo_state
     = (demo_state, [Error_missing_columns [''joined'']], Completed) \<and>
   upload_csv demo_lib demo_file_extra demo_state
     = upload_csv demo_lib demo_file_plain demo_state \<and>
   rows (fst (upload_csv demo_lib demo_file_extra demo_state))
     = demo_rows @ [[(''who'', VStr ''Ann''), (''age'', VFloat NaN), (''joined'', VDate (Ymd 2023 1 5))]] \<and>
   snd (upload_csv demo_lib demo_file_extra demo_state) = ([Success_imported 1], Rerun)"
proof -
  let ?short = "\<lparr>columns = [''who'', ''age''], data = [[RStr ''Ann'', RFloat NaN]]\<rparr>"
  let ?plain = "\<lparr>columns = [''who'', ''age'', ''joined''],
                 data = [[RStr ''Ann'', RFloat NaN, RStr ''2023-01-05'']]\<rparr>"
  let ?extra = "\<lparr>columns = [''extra'', ''joined'', ''who'', ''age''],
                 data = [[RStr ''zzz'', RStr ''2023-01-05'', RStr ''Ann'', RFloat NaN]]\<rparr>"
  have rs: "read_csv demo_lib demo_file_short = Inr ?short" by code_simp
  have rp: "read_csv demo_lib demo_file_plain = Inr ?plain" by code_simp
  have re: "read_csv demo_lib demo_file_extra = Inr ?extra" by code_simp
  have ns: "\<not> set (map name (schema demo_state)) \<subseteq> set (columns ?short)"
    by (simp add: demo_state_def demo_schema_def)
  have ms: "filter (\<lambda>c. c \<notin> set (columns ?short)) (map name (schema demo_state)) = [''joined'']"
    by (simp add: demo_state_def demo_schema_def)
  have sp: "set (map name (schema demo_state)) \<subseteq> set (columns ?plain)"
    by (simp add: demo_state_def demo_schema_def)
  have se: "set (map name (schema demo_state)) \<subseteq> set (columns ?extra)"
    by (simp add: demo_state_def demo_schema_def)
  have sel: "frame_select ?extra (map name (schema demo_state))
           = frame_select ?plain (map name (schema demo_state))"
    by (simp add: frame_select_def cell_at_def demo_state_def demo_schema_def)
  from missing_column_aborts_import [OF rs, of demo_state] ns ms
  have 1: "upload_csv demo_lib demo_file_short demo_state
     = (demo_state, [Error_missing_columns [''joined'']], Completed)" by simp
  from missing_column_aborts_import [OF rp, of demo_state] sp re se sel
  have 2: "upload_csv demo_lib demo_file_extra demo_state
     = upload_csv demo_lib demo_file_plain demo_state" by blast
  have 3: "rows (fst (upload_csv demo_lib demo_file_extra demo_state))
     = demo_rows @ [[(''who'', VStr ''Ann''), (''age'', VFloat NaN), (''joined'', VDate (Ymd 2023 1 5))]]"
    by code_simp
  have 4: "snd (upload_csv demo_lib demo_file_extra demo_state) = ([Success_imported 1], Rerun)"
    by code_simp
  from 1 2 3 4 show ?thesis by blast
qed

subsection \<open>C9: no exception leaves the casts or the import\<close>

lemma submit_row_not_propagated:
  "casts_raise_Exception lib \<Longrightarrow> propagated (submit_row lib new_row s) = None"
  using validate_and_cast_returns [of lib "schema s" new_row]
  by (auto simp: submit_row_def split: sum.splits)

lemma upload_csv_not_propagated:
  assumes "casts_raise_Exception lib" and "read_csv_raises_Exception lib"
  shows "propagated (upload_csv lib uploaded s) = None"
proof (cases "read_csv lib uploaded")
  case (Inl e)
  with assms(2) have "is_Exception e" by (auto simp: read_csv_raises_Exception_def)
  with Inl show ?thesis by (simp add: upload_csv_def)
next
  case (Inr df)
  show ?thesis
  proof (cases "set (map name (schema s)) \<subseteq> set (columns df)")
    case True
    show ?thesis unfolding upload_csv_no_missing [OF assms(1) Inr True] Let_def by simp
  next
    case False
    show ?thesis unfolding upload_csv_missing [OF Inr False] by simp
  qed
qed

lemma handle_not_propagated:
  assumes "casts_raise_Exception lib" and "read_csv_raises_Exception lib"
  shows "propagated (handle lib ev s) = None"
  using submit_row_not_propagated [OF assms(1)] upload_csv_not_propagated [OF assms]
  by (cases ev)
     (simp_all add: set_num_vars_def create_fields_def edit_field_def save_schema_def
        reset_schema_def clear_data_def split: sum.splits)

lemma validate_loop_verdict:
  "casts_raise_Exception lib \<Longrightarrow>
   (\<exists>out'. validate_loop lib sch row_dict out = Returns (Inr out')) \<or>
   (\<exists>f\<in>set sch. \<exists>e. cast_field lib (ftype f) (row_dict (name f)) = Inl e \<and>
      validate_loop lib sch row_dict out = Returns (Inl (cast_error (name f) (ftype f) e)))"
proof (induction sch arbitrary: out)
  case Nil
  then show ?case by simp
next
  case (Cons f fs)
  show ?case
  proof (cases "cast_field lib (ftype f) (row_dict (name f))")
    case (Inl e)
    with Cons.prems have "is_Exception e" using cast_field_raises by blast
    with Inl show ?thesis by simp
  next
    case (Inr v)
    with Cons.IH [OF Cons.prems, of "AList.update (name f) v out"] show ?thesis by auto
  qed
qed

text \<open>
  C9. Let the library raise instances of \<^verbatim>\<open>Exception\<close> only. Then
  \<^verbatim>\<open>validate_and_cast\<close> returns for every schema and row: either the row, or the
  error message of a field whose cast has raised. No exception leaves the form handler, the
  upload handler or any other interaction; and an exception raised by \<^verbatim>\<open>pd.read_csv\<close>
  ends the upload with the message \<^verbatim>\<open>Error reading CSV: ...\<close> and the session state
  unchanged.
\<close>

theorem casting_and_import_do_not_raise:
  assumes "casts_raise_Exception lib" and "read_csv_raises_Exception lib"
  shows "((\<exists>out. validate_and_cast lib sch row_dict = Returns (Inr out)) \<or>
          (\<exists>f\<in>set sch. \<exists>e. cast_field lib (ftype f) (row_dict (name f)) = Inl e \<and>
             validate_and_cast lib sch row_dict
               = Returns (Inl (cast_error (name f) (ftype f) e)))) \<and>
         propagated (submit_row lib new_row s) = None \<and>
         propagated (upload_csv lib uploaded s) = None \<and>
         (\<forall>e. read_csv lib uploaded = Inl e \<longrightarrow>
            upload_csv lib uploaded s
              = (s, [Error_text (''Error reading CSV: '' @ exn_str e)], Completed)) \<and>
         propagated (handle lib ev s) = None"
proof -
  have "upload_csv lib uploaded s
          = (s, [Error_text (''Error reading CSV: '' @ exn_str e)], Completed)"
    if "read_csv lib uploaded = Inl e" for e
  proof -
    from that assms(2) have "is_Exception e" by (auto simp: read_csv_raises_Exception_def)
    with that show ?thesis by (simp add: upload_csv_def)
  qed
  then show ?thesis
    using validate_loop_verdict [OF assms(1), of sch row_dict "[]"]
      submit_row_not_propagated [OF assms(1)] upload_csv_not_propagated [OF assms]
      handle_not_propagated [OF assms]
    unfolding validate_and_cast_def by blast
qed

text \<open>
  A word for the age gives an error value, and an empty file, which the reader refuses,
  gives the error message of the reader.
\<close>

theorem casting_and_import_do_not_raise_witness:
  "validate_and_cast demo_lib demo_schema [''who'' \<mapsto> RStr ''Ann'', ''age'' \<mapsto> RStr ''thirty'']
     = Returns (Inl (demo_age_error ''thirty'')) \<and>
   upload_csv demo_lib [] demo_state
     = (demo_state, [Error_text ''Error reading CSV: No columns to parse from file''], Completed) \<and>
   propagated (upload_csv demo_lib demo_file demo_state) = None \<and>
   propagated (handle demo_lib (Submit_row [''age'' \<mapsto> RStr ''thirty'']) demo_state) = None"
proof -
  note t = casting_and_import_do_not_raise [OF demo_casts demo_reads]
  have v: "validate_and_cast demo_lib demo_schema [''who'' \<mapsto> RStr ''Ann'', ''age'' \<mapsto> RStr ''thirty'']
     = Returns (Inl (demo_age_error ''thirty''))"
    by (simp add: validate_and_cast_def demo_schema_def cast_field_def blank_to_None_def
          strip_def isspace_def cast_value_def py_float_def py_str_def demo_lib_def
          demo_float_of_def is_digit_def demo_age_error_def)
  have r: "read_csv demo_lib [] = Inl (Exception ''No columns to parse from file'')"
    by (simp add: demo_lib_def demo_read_csv_def)
  from t [of demo_schema Map.empty Map.empty demo_state "[]" Save_schema] r
  have u: "upload_csv demo_lib [] demo_state
     = (demo_state, [Error_text ''Error reading CSV: No columns to parse from file''], Completed)"
    by simp
  from t [of demo_schema Map.empty Map.empty demo_state demo_file
        "Submit_row [''age'' \<mapsto> RStr ''thirty'']"]
  have p: "propagated (upload_csv demo_lib demo_file demo_state) = None"
    "propagated (handle demo_lib (Submit_row [''age'' \<mapsto> RStr ''thirty'']) demo_state) = None"
    by blast+
  from v u p show ?thesis by blast
qed

subsection \<open>C1: exporting and importing again\<close>

text \<open>The example session stores the blank note as null.\<close>

lemma notes_run:
  "run lib notes_events init_state
     = \<lparr>schema = [\<lparr>name = ''who'', ftype = Short_text\<rparr>, \<lparr>name = ''note'', ftype = Short_text\<rparr>],
        rows = [[(''who'', VStr ''Ann''), (''note'', VNone)]], num_vars = 2,
        temp_names = Map.empty, temp_types = Map.empty\<rparr>"
  by (simp add: notes_events_def init_state_def set_num_vars_def edit_field_def
        save_schema_def draft_name_def draft_type_def strip_def isspace_def submit_row_def
        validate_and_cast_def cast_field_def blank_to_None_def cast_value_def py_str_def
        upt_rec Let_def)

text \<open>
  C1. The specification asks that exporting the store and importing the exported text under
  the same schema gives the same rows again, null entries included. The script does not:
  in the example session the stored row has a null note, and for every library that reads
  the exported table back with the empty cell as the float not-a-number, as pandas does,
  the row imported has the string \<^verbatim>\<open>nan\<close> as its note.
\<close>

theorem reimport_turns_null_into_nan:
  assumes "to_csv lib \<lparr>columns = [''who'', ''note''], data = [[VStr ''Ann'', VNone]]\<rparr> = text"
    and "read_csv lib text
           = Inr \<lparr>columns = [''who'', ''note''], data = [[RStr ''Ann'', RFloat NaN]]\<rparr>"
  shows "rows (run lib notes_events init_state) = [[(''who'', VStr ''Ann''), (''note'', VNone)]] \<and>
         download_csv lib (run lib notes_events init_state) = Some text \<and>
         export_then_import lib (run lib notes_events init_state)
           = Some [[(''who'', VStr ''Ann''), (''note'', VStr ''nan'')]]"
proof -
  have d: "download_csv lib (run lib notes_events init_state) = Some text"
    by (simp add: notes_run download_csv_def schema_to_dataframe_def df_empty_def assms(1))
  have u: "rows (fst (upload_csv lib text (fst (clear_data (run lib notes_events init_state)))))
         = [[(''who'', VStr ''Ann''), (''note'', VStr ''nan'')]]"
    by (simp add: notes_run clear_data_def upload_csv_def assms(2) frame_select_def cell_at_def
          frame_dicts_def to_dict_def validate_and_cast_def cast_field_def blank_to_None_def
          strip_def isspace_def cast_value_def py_str_def Let_def)
  show ?thesis by (simp add: export_then_import_def d u) (simp add: notes_run)
qed

text \<open>
  With the small library the exported text is the header line and the line \<^verbatim>\<open>Ann,\<close>,
  and importing it gives the note \<^verbatim>\<open>nan\<close>.
\<close>

theorem reimport_turns_null_into_nan_witness:
  "rows (run demo_lib notes_events init_state) = [[(''who'', VStr ''Ann''), (''note'', VNone)]] \<and>
   download_csv demo_lib (run demo_lib notes_events init_state)
     = Some (''who,note'' @ [CHR 10] @ ''Ann,'' @ [CHR 10]) \<and>
   export_then_import demo_lib (run demo_lib notes_events init_state)
     = Some [[(''who'', VStr ''Ann''), (''note'', VStr ''nan'')]]"
proof -
  have 1: "to_csv demo_lib \<lparr>columns = [''who'', ''note''], data = [[VStr ''Ann'', VNone]]\<rparr>
      = ''who,note'' @ [CHR 10] @ ''Ann,'' @ [CHR 10]"
    by (simp add: demo_lib_def demo_to_csv_def demo_cell_def)
  have 2: "read_csv demo_lib (''who,note'' @ [CHR 10] @ ''Ann,'' @ [CHR 10])
           = Inr \<lparr>columns = [''who'', ''note''], data = [[RStr ''Ann'', RFloat NaN]]\<rparr>"
    by (simp add: demo_lib_def demo_read_csv_def)
  from reimport_turns_null_into_nan [OF 1 2] show ?thesis .
qed

end
